theory Spec2Isabelle
  imports Main "HOL-Library.Word" "HOL-Library.Signed_Division" "HOL-Library.Monad_Syntax"
begin

unbundle bit_operations_syntax

section \<open>Data model of heatingcontroller.cpp\<close>

text \<open>
  The target is an AVR ATmega328: \<^verbatim>\<open>byte\<close> is 8 bits, \<^verbatim>\<open>int\<close> and
  \<^verbatim>\<open>unsigned int\<close> are 16 bits. Values of type \<^verbatim>\<open>int\<close> are 16-bit words
  read with \<open>sint\<close> (signed comparison \<open><s\<close>); arithmetic on them wraps.
  Fixed-size C arrays are functions from the index to the element; every access whose
  index is not a literal is checked against the declared size, and an access outside
  the array (undefined behaviour in C) is the value \<open>None\<close>.
\<close>

type_synonym byte = "8 word"
type_synonym uint = "16 word"
type_synonym cint = "16 word"

abbreviation (input) MAX_SENSORS :: nat where "MAX_SENSORS \<equiv> 10"
abbreviation (input) MAX_EVENTS :: nat where "MAX_EVENTS \<equiv> 100"
abbreviation (input) MAX_ZONES :: nat where "MAX_ZONES \<equiv> 10"
abbreviation (input) EEPROM_SENSOR_START :: nat where "EEPROM_SENSOR_START \<equiv> 0"
abbreviation (input) EEPROM_SENSOR_SIZE :: nat where "EEPROM_SENSOR_SIZE \<equiv> 10"
abbreviation (input) EEPROM_ZONE_START :: nat where "EEPROM_ZONE_START \<equiv> 100"
abbreviation (input) EEPROM_ZONE_SIZE :: nat where "EEPROM_ZONE_SIZE \<equiv> 2"
abbreviation (input) EEPROM_EVENT_START :: nat where "EEPROM_EVENT_START \<equiv> 200"
abbreviation (input) EEPROM_EVENT_SIZE :: nat where "EEPROM_EVENT_SIZE \<equiv> 10"

text \<open>
  \<open>MAX_ZONES\<close> names the literal 10 of \<^verbatim>\<open>zone g_zones[10]\<close>. The structs of the
  source share field names (\<^verbatim>\<open>nTime\<close>, \<^verbatim>\<open>nZone\<close>, \<^verbatim>\<open>nValue\<close>), so the fields of
  \<^verbatim>\<open>timestamp\<close>, \<^verbatim>\<open>sensor\<close> and \<^verbatim>\<open>event\<close> carry the prefixes \<open>ts_\<close>, \<open>s_\<close> and \<open>e_\<close>.
\<close>

record timestamp =
  ts_nTime :: uint
  ts_nDay :: byte

record sensor =
  address :: "nat \<Rightarrow> byte"
  s_nValue :: cint
  s_nZone :: byte

record event =
  e_nTime :: uint
  e_nDays :: byte
  e_nZone :: byte
  e_nValue :: cint

record zone =
  nSetpoint :: cint
  nHyst :: byte
  bOn :: bool
  bSpace :: bool

text \<open>The globals of the program, and the EEPROM as a byte-addressed store.\<close>

record state =
  g_nSensorQuant :: uint
  g_nEventQuant :: byte
  g_tsNow :: timestamp
  g_tsNextEvent :: timestamp
  g_sensors :: "nat \<Rightarrow> sensor"
  g_events :: "nat \<Rightarrow> event"
  g_zones :: "nat \<Rightarrow> zone"
  EEPROM :: "nat \<Rightarrow> byte"

text \<open>
  \<^verbatim>\<open>DeleteEvent\<close> and \<^verbatim>\<open>AddSensor\<close> are void and return early on some paths; their
  models return, beside the state the call leaves, a marker of the path it took. The
  marker is not something the program outputs.
\<close>

datatype outcome = Done | CapacityExceeded | OutOfRange

text \<open>
  The serial port is not part of the state. A call of \<^verbatim>\<open>Serial.print\<close> or
  \<^verbatim>\<open>Serial.println\<close> is a value of the type below; where a property speaks of what a
  function reports, the calls it makes are given by a function of their own.
\<close>

datatype serial = Print string | PrintHex byte | Println string

definition rd :: "nat \<Rightarrow> (nat \<Rightarrow> 'a) \<Rightarrow> nat \<Rightarrow> 'a option" where
  "rd n a i = (if i < n then Some (a i) else None)"

definition wr :: "nat \<Rightarrow> (nat \<Rightarrow> 'a) \<Rightarrow> nat \<Rightarrow> 'a \<Rightarrow> (nat \<Rightarrow> 'a) option" where
  "wr n a i v = (if i < n then Some (a(i := v)) else None)"

text \<open>C division of two \<^verbatim>\<open>int\<close>s truncates towards zero.\<close>

definition c_div :: "cint \<Rightarrow> cint \<Rightarrow> cint" where
  "c_div a b = word_of_int (sint a sdiv sint b)"

section \<open>Persistent configuration\<close>

text \<open>\<^verbatim>\<open>SaveEvent\<close>: six bytes of the ten-byte slot, both 16-bit fields big-endian.\<close>

definition SaveEvent :: "nat \<Rightarrow> state \<Rightarrow> state option" where
  "SaveEvent nEvent s = do {
     e \<leftarrow> rd MAX_EVENTS (g_events s) nEvent;
     let a = nEvent * EEPROM_EVENT_SIZE + EEPROM_EVENT_START;
     Some (s\<lparr>EEPROM := (EEPROM s)
       (a := e_nDays e,
        a + 1 := ucast (drop_bit 8 (e_nTime e AND 0xFF00)),
        a + 2 := ucast (e_nTime e AND 0xFF),
        a + 3 := e_nZone e,
        a + 4 := ucast (drop_bit 8 (e_nValue e AND 0xFF00)),
        a + 5 := ucast (e_nValue e AND 0xFF))\<rparr>)
   }"

text \<open>\<^verbatim>\<open>SaveZone\<close>: hysteresis, then 1 or 0 for the space-heating flag.\<close>

definition SaveZone :: "nat \<Rightarrow> state \<Rightarrow> state option" where
  "SaveZone nZone s = do {
     z \<leftarrow> rd MAX_ZONES (g_zones s) nZone;
     let a = nZone * EEPROM_ZONE_SIZE + EEPROM_ZONE_START;
     Some (s\<lparr>EEPROM := (EEPROM s)
       (a := nHyst z,
        a + 1 := (if bSpace z then 1 else 0))\<rparr>)
   }"

text \<open>
  \<^verbatim>\<open>ReadConfig\<close>. The sensor loop counts in the global \<^verbatim>\<open>g_nSensorQuant\<close> and stops at the
  first slot whose first byte is zero; the event loop counts in \<^verbatim>\<open>g_nEventQuant\<close> and
  stores the day mask it read before it tests it; the zone loop reads all ten records.
\<close>

definition ReadConfig_sensor :: "nat \<Rightarrow> state \<Rightarrow> state" where
  "ReadConfig_sensor q s =
     (let b = q * EEPROM_SENSOR_SIZE + EEPROM_SENSOR_START;
          sn = g_sensors s q;
          sn1 = sn\<lparr>address := fold (\<lambda>i f. f(i := EEPROM s (b + i))) [0..<8] (address sn)\<rparr>;
          sn2 = sn1\<lparr>s_nZone := EEPROM s (b + 8)\<rparr>
      in s\<lparr>g_sensors := (g_sensors s)(q := sn2)\<rparr>)"

function ReadConfig_sensors :: "state \<Rightarrow> state" where
  "ReadConfig_sensors s =
     (let q = unat (g_nSensorQuant s) in
      if q < MAX_SENSORS then
        (if EEPROM s (q * EEPROM_SENSOR_SIZE + EEPROM_SENSOR_START) = 0 then s
         else ReadConfig_sensors ((ReadConfig_sensor q s)\<lparr>g_nSensorQuant := g_nSensorQuant s + 1\<rparr>))
      else s)"
  by pat_completeness auto
termination
  by (relation "measure (\<lambda>s. MAX_SENSORS - unat (g_nSensorQuant s))")
     (auto simp: ReadConfig_sensor_def Let_def unat_word_ariths)

definition ReadConfig_event :: "nat \<Rightarrow> state \<Rightarrow> state" where
  "ReadConfig_event q s =
     (let b = q * EEPROM_EVENT_SIZE + EEPROM_EVENT_START;
          e = g_events s q;
          e1 = e\<lparr>e_nTime := push_bit 8 (ucast (EEPROM s (b + 1))) OR ucast (EEPROM s (b + 2))\<rparr>;
          e2 = e1\<lparr>e_nZone := EEPROM s (b + 3)\<rparr>;
          e3 = e2\<lparr>e_nValue := push_bit 8 (ucast (EEPROM s (b + 4))) OR ucast (EEPROM s (b + 5))\<rparr>
      in s\<lparr>g_events := (g_events s)(q := e3)\<rparr>)"

function ReadConfig_events :: "state \<Rightarrow> state" where
  "ReadConfig_events s =
     (let q = unat (g_nEventQuant s) in
      if q < MAX_EVENTS then
        (let d = EEPROM s (q * EEPROM_EVENT_SIZE + EEPROM_EVENT_START);
             s1 = s\<lparr>g_events := (g_events s)(q := (g_events s q)\<lparr>e_nDays := d\<rparr>)\<rparr>
         in if d = 0 then s1
            else ReadConfig_events ((ReadConfig_event q s1)\<lparr>g_nEventQuant := g_nEventQuant s1 + 1\<rparr>))
      else s)"
  by pat_completeness auto
termination
  by (relation "measure (\<lambda>s. MAX_EVENTS - unat (g_nEventQuant s))")
     (auto simp: ReadConfig_event_def Let_def unat_word_ariths)

definition ReadConfig_zone :: "nat \<Rightarrow> state \<Rightarrow> state" where
  "ReadConfig_zone nZone s =
     (let a = nZone * EEPROM_ZONE_SIZE + EEPROM_ZONE_START;
          z = g_zones s nZone;
          z1 = z\<lparr>nHyst := EEPROM s a\<rparr>;
          z2 = z1\<lparr>bSpace := (EEPROM s (a + 1) = 1)\<rparr>
      in s\<lparr>g_zones := (g_zones s)(nZone := z2)\<rparr>)"

definition ReadConfig :: "state \<Rightarrow> state" where
  "ReadConfig s =
     (let s1 = ReadConfig_sensors (s\<lparr>g_nSensorQuant := 0\<rparr>);
          s2 = ReadConfig_events (s1\<lparr>g_nEventQuant := 0\<rparr>)
      in fold ReadConfig_zone [0..<MAX_ZONES] s2)"

section \<open>Events and the scheduler\<close>

text \<open>
  \<^verbatim>\<open>AddEvent\<close> is void. It returns at once when the list is full; otherwise it fills
  slot \<^verbatim>\<open>g_nEventQuant\<close> field by field, saves it when asked, and counts it. The result
  is the state the call leaves and nothing else.
\<close>

definition AddEvent :: "byte \<Rightarrow> byte \<Rightarrow> uint \<Rightarrow> cint \<Rightarrow> bool \<Rightarrow> state \<Rightarrow> state option" where
  "AddEvent nZone nDays nTime nSetpoint' bSave s =
     (if MAX_EVENTS \<le> unat (g_nEventQuant s) then Some s
      else do {
        let q = unat (g_nEventQuant s);
        es \<leftarrow> wr MAX_EVENTS (g_events s) q
          ((g_events s q)\<lparr>e_nDays := nDays, e_nTime := nTime, e_nZone := nZone, e_nValue := nSetpoint'\<rparr>);
        let s1 = s\<lparr>g_events := es\<rparr>;
        s2 \<leftarrow> (if bSave then SaveEvent q s1 else Some s1);
        Some (s2\<lparr>g_nEventQuant := g_nEventQuant s2 + 1\<rparr>)
      })"

text \<open>
  What one call of \<^verbatim>\<open>AddEvent\<close> writes to the serial port: neither \<^verbatim>\<open>AddEvent\<close> nor
  \<^verbatim>\<open>SaveEvent\<close> has a statement that prints, on any path.
\<close>

definition AddEvent_serial :: "byte \<Rightarrow> byte \<Rightarrow> uint \<Rightarrow> cint \<Rightarrow> bool \<Rightarrow> state \<Rightarrow> serial list" where
  "AddEvent_serial nZone nDays nTime nSetpoint' bSave s = []"

text \<open>
  One pass of the compaction loop of \<^verbatim>\<open>DeleteEvent\<close>: the four fields of slot
  \<open>n + 1\<close> are read and stored into slot \<open>n\<close>, which is then saved.
\<close>

definition DeleteEvent_body :: "nat \<Rightarrow> state \<Rightarrow> state option" where
  "DeleteEvent_body n s = do {
     src \<leftarrow> rd MAX_EVENTS (g_events s) (n + 1);
     es \<leftarrow> wr MAX_EVENTS (g_events s) n
       ((g_events s n)\<lparr>e_nDays := e_nDays src, e_nTime := e_nTime src,
                        e_nZone := e_nZone src, e_nValue := e_nValue src\<rparr>);
     SaveEvent n (s\<lparr>g_events := es\<rparr>)
   }"

lemma SaveEvent_quant: "SaveEvent n s = Some s' \<Longrightarrow> g_nEventQuant s' = g_nEventQuant s"
  by (auto simp: SaveEvent_def rd_def Let_def split: if_splits)

lemma DeleteEvent_body_quant:
  "DeleteEvent_body n s = Some s' \<Longrightarrow> g_nEventQuant s' = g_nEventQuant s"
  by (auto simp: DeleteEvent_body_def rd_def wr_def bind_eq_Some_conv
           dest!: SaveEvent_quant split: if_splits)

function DeleteEvent_loop :: "nat \<Rightarrow> state \<Rightarrow> state option" where
  "DeleteEvent_loop n s =
     (if n < unat (g_nEventQuant s)
      then (case DeleteEvent_body n s of None \<Rightarrow> None | Some s' \<Rightarrow> DeleteEvent_loop (Suc n) s')
      else Some s)"
  by pat_completeness auto
termination
  by (relation "measure (\<lambda>(n, s). unat (g_nEventQuant s) - n)")
     (auto dest: DeleteEvent_body_quant)

definition DeleteEvent :: "byte \<Rightarrow> state \<Rightarrow> (outcome \<times> state) option" where
  "DeleteEvent nEvent s =
     (if g_nEventQuant s \<le> nEvent then Some (OutOfRange, s)
      else do {
        s' \<leftarrow> DeleteEvent_loop (unat nEvent) s;
        Some (Done, s'\<lparr>g_nEventQuant := g_nEventQuant s' - 1\<rparr>)
      })"

text \<open>
  One pass of the loop of \<^verbatim>\<open>ProcessEvents\<close>: an event due now sets the set-point of
  its zone; an event later today and earlier than the candidate becomes the candidate.
\<close>

definition ProcessEvents_body :: "nat \<Rightarrow> state \<Rightarrow> state option" where
  "ProcessEvents_body nEvent s = do {
     e \<leftarrow> rd MAX_EVENTS (g_events s) nEvent;
     let now = g_tsNow s;
     s1 \<leftarrow> (if e_nTime e = ts_nTime now \<and> e_nDays e AND ts_nDay now \<noteq> 0
            then do {
              z \<leftarrow> rd MAX_ZONES (g_zones s) (unat (e_nZone e));
              Some (s\<lparr>g_zones := (g_zones s)(unat (e_nZone e) := z\<lparr>nSetpoint := e_nValue e\<rparr>)\<rparr>)
            }
            else Some s);
     Some (if e_nDays e AND ts_nDay now \<noteq> 0 \<and> ts_nTime now < e_nTime e
              \<and> e_nTime e < ts_nTime (g_tsNextEvent s1)
           then s1\<lparr>g_tsNextEvent := (g_tsNextEvent s1)\<lparr>ts_nTime := e_nTime e, ts_nDay := ts_nDay now\<rparr>\<rparr>
           else s1)
   }"

lemma ProcessEvents_body_quant:
  "ProcessEvents_body n s = Some s' \<Longrightarrow> g_nEventQuant s' = g_nEventQuant s"
  by (auto simp: ProcessEvents_body_def rd_def bind_eq_Some_conv Let_def split: if_splits)

function ProcessEvents_loop :: "nat \<Rightarrow> state \<Rightarrow> state option" where
  "ProcessEvents_loop nEvent s =
     (if nEvent < unat (g_nEventQuant s)
      then (case ProcessEvents_body nEvent s of None \<Rightarrow> None
            | Some s' \<Rightarrow> ProcessEvents_loop (Suc nEvent) s')
      else Some s)"
  by pat_completeness auto
termination
  by (relation "measure (\<lambda>(n, s). unat (g_nEventQuant s) - n)")
     (auto dest: ProcessEvents_body_quant)

text \<open>
  \<^verbatim>\<open>ProcessEvents\<close>. When the loop leaves the sentinel 0xFFFF in place, the minute is set
  to 0 and the stored day of the next event is shifted left by one, as a \<^verbatim>\<open>byte\<close>, and
  set to 1 when the shifted byte exceeds 127.
\<close>

definition ProcessEvents :: "state \<Rightarrow> state option" where
  "ProcessEvents s = do {
     s1 \<leftarrow> ProcessEvents_loop 0 (s\<lparr>g_tsNextEvent := (g_tsNextEvent s)\<lparr>ts_nTime := 0xFFFF\<rparr>\<rparr>);
     Some (if ts_nTime (g_tsNextEvent s1) = 0xFFFF
           then (let d = push_bit 1 (ts_nDay (g_tsNextEvent s1))
                 in s1\<lparr>g_tsNextEvent :=
                      (g_tsNextEvent s1)\<lparr>ts_nTime := 0, ts_nDay := (if 127 < d then 1 else d)\<rparr>\<rparr>)
           else s1)
   }"

section \<open>Sensors\<close>

text \<open>
  \<^verbatim>\<open>GetTemperature(unsigned int)\<close>. The one-wire transaction of
  \<^verbatim>\<open>GetTemperature(byte*)\<close> is input from outside the program: \<open>r\<close> is the \<^verbatim>\<open>int\<close> it
  returns for this sensor, -2000 on a failed read.
\<close>

definition GetTemperature :: "nat \<Rightarrow> cint \<Rightarrow> state \<Rightarrow> bool \<times> state" where
  "GetTemperature nSensor r s =
     (if MAX_SENSORS \<le> nSensor then (False, s)
      else if r = - 2000 then (False, s)
      else (True, s\<lparr>g_sensors := (g_sensors s)(nSensor := (g_sensors s nSensor)\<lparr>s_nValue := r\<rparr>)\<rparr>))"

text \<open>
  The inner loop of \<^verbatim>\<open>AddSensor\<close> compares the eight bytes in order; \<open>b\<close> is
  \<^verbatim>\<open>bDuplicate\<close>, set on every equal byte and cleared, with a break, on the first unequal one.
\<close>

function AddSensor_compare :: "nat \<Rightarrow> bool \<Rightarrow> (nat \<Rightarrow> byte) \<Rightarrow> (nat \<Rightarrow> byte) \<Rightarrow> bool" where
  "AddSensor_compare i b pAddress a =
     (if i < 8 then (if pAddress i = a i then AddSensor_compare (Suc i) True pAddress a else False)
      else b)"
  by pat_completeness auto
termination
  by (relation "measure (\<lambda>(i, b, p, a). 8 - i)") auto

text \<open>The outer loop: the result is \<^verbatim>\<open>bDuplicate\<close> and \<^verbatim>\<open>nSensor\<close> as the loop leaves them.\<close>

function AddSensor_scan :: "nat \<Rightarrow> (nat \<Rightarrow> byte) \<Rightarrow> state \<Rightarrow> (bool \<times> nat) option" where
  "AddSensor_scan nSensor pAddress s =
     (if nSensor < unat (g_nSensorQuant s) then
        (case rd MAX_SENSORS (g_sensors s) nSensor of
           None \<Rightarrow> None
         | Some sn \<Rightarrow>
             if AddSensor_compare 0 False pAddress (address sn) then Some (True, nSensor)
             else AddSensor_scan (Suc nSensor) pAddress s)
      else Some (False, nSensor))"
  by pat_completeness auto
termination
  by (relation "measure (\<lambda>(n, p, s). unat (g_nSensorQuant s) - n)") auto

definition AddSensor_new :: "(nat \<Rightarrow> byte) \<Rightarrow> state \<Rightarrow> state option" where
  "AddSensor_new pAddress s = do {
     let q = unat (g_nSensorQuant s);
     sn \<leftarrow> rd MAX_SENSORS (g_sensors s) q;
     let sn' = sn\<lparr>address := fold (\<lambda>i f. f(i := pAddress i)) [0..<8] (address sn)\<rparr>;
     let rom = fold (\<lambda>i f. f(q * 10 + i := pAddress i)) [0..<8] (EEPROM s);
     Some (s\<lparr>g_sensors := (g_sensors s)(q := sn'), EEPROM := rom,
             g_nSensorQuant := g_nSensorQuant s + 1\<rparr>)
   }"

definition AddSensor :: "(nat \<Rightarrow> byte) \<Rightarrow> byte \<Rightarrow> cint \<Rightarrow> state \<Rightarrow> (outcome \<times> state) option" where
  "AddSensor pAddress nZone r s = do {
     (bDuplicate, nSensor) \<leftarrow> AddSensor_scan 0 pAddress s;
     if \<not> bDuplicate \<and> MAX_SENSORS \<le> unat (g_nSensorQuant s) then Some (CapacityExceeded, s)
     else do {
       s1 \<leftarrow> (if \<not> bDuplicate then AddSensor_new pAddress s else Some s);
       sn \<leftarrow> rd MAX_SENSORS (g_sensors s1) nSensor;
       let s2 = s1\<lparr>g_sensors := (g_sensors s1)(nSensor := sn\<lparr>s_nZone := nZone\<rparr>),
                  EEPROM := (EEPROM s1)(nSensor * 10 + 8 := nZone)\<rparr>;
       Some (Done, snd (GetTemperature nSensor r s2))
     }
   }"

text \<open>
  What one call of \<^verbatim>\<open>AddSensor\<close> writes to the serial port: at capacity the line that
  no more sensors can be added; for a new sensor the opening text, the eight address
  bytes in hexadecimal and the closing bracket; for a known address the line that the
  sensor is updated. \<^verbatim>\<open>GetTemperature\<close> prints nothing.
\<close>

definition AddSensor_serial :: "(nat \<Rightarrow> byte) \<Rightarrow> state \<Rightarrow> serial list option" where
  "AddSensor_serial pAddress s = do {
     (bDuplicate, nSensor) \<leftarrow> AddSensor_scan 0 pAddress s;
     if \<not> bDuplicate then
       (if MAX_SENSORS \<le> unat (g_nSensorQuant s)
        then Some [Println ''Can't add any more sensors.'']
        else Some (Print ''Adding new sensor ['' # map (\<lambda>i. PrintHex (pAddress i)) [0..<8]
                   @ [Println '']'']))
     else Some [Println ''Updating existing sensor'']
   }"

section \<open>The control cycle\<close>

text \<open>
  The two tests of \<^verbatim>\<open>loop\<close> on one zone and one stored sensor value, in the order and
  with the operands of the source: the first compares the set-point with \<^verbatim>\<open>nValue\<close>, the
  second compares set-point minus hysteresis with \<^verbatim>\<open>nValue / 10\<close>; they are two
  \<^verbatim>\<open>if\<close>s, not an \<^verbatim>\<open>if\<close> and its \<^verbatim>\<open>else\<close>.
\<close>

definition evaluate :: "zone \<Rightarrow> cint \<Rightarrow> zone" where
  "evaluate z v =
     (let z1 = (if nSetpoint z <s v then z\<lparr>bOn := False\<rparr> else z)
      in if c_div v 10 <s nSetpoint z1 - ucast (nHyst z1) then z1\<lparr>bOn := True\<rparr> else z1)"

text \<open>
  One pass of the sensor loop of \<^verbatim>\<open>loop\<close>; \<open>r\<close> is what the bus returned for this
  sensor in this cycle. The accumulators are \<^verbatim>\<open>bPump\<close> and \<^verbatim>\<open>bBoiler\<close>.
\<close>

definition loop_body :: "nat \<Rightarrow> cint \<Rightarrow> state \<times> bool \<times> bool \<Rightarrow> (state \<times> bool \<times> bool) option" where
  "loop_body nSensor r acc =
     (case acc of (s, bPump, bBoiler) \<Rightarrow> do {
        let s1 = snd (GetTemperature nSensor r s);
        sn \<leftarrow> rd MAX_SENSORS (g_sensors s1) nSensor;
        z \<leftarrow> rd MAX_ZONES (g_zones s1) (unat (s_nZone sn));
        let z' = evaluate z (s_nValue sn);
        Some (s1\<lparr>g_zones := (g_zones s1)(unat (s_nZone sn) := z')\<rparr>,
              (if bSpace z' then bPump \<or> bOn z' else bPump),
              bBoiler \<or> bOn z')
      })"

lemma loop_body_quant:
  "loop_body n r (s, p, b) = Some (s', p', b') \<Longrightarrow> g_nSensorQuant s' = g_nSensorQuant s"
  by (auto simp: loop_body_def GetTemperature_def rd_def bind_eq_Some_conv Let_def
           split: if_splits)

function loop_sensors :: "(nat \<Rightarrow> cint) \<Rightarrow> nat \<Rightarrow> state \<times> bool \<times> bool \<Rightarrow> (state \<times> bool \<times> bool) option" where
  "loop_sensors bus nSensor (s, bPump, bBoiler) =
     (if nSensor < unat (g_nSensorQuant s)
      then (case loop_body nSensor (bus nSensor) (s, bPump, bBoiler) of
              None \<Rightarrow> None
            | Some acc \<Rightarrow> loop_sensors bus (Suc nSensor) acc)
      else Some (s, bPump, bBoiler))"
  by pat_completeness auto
termination
  by (relation "measure (\<lambda>(bus, n, s, p, b). unat (g_nSensorQuant s) - n)")
     (auto dest: loop_body_quant)

text \<open>
  The evaluation of due events at the head of the cycle: \<^verbatim>\<open>ProcessEvents\<close> runs only
  when the stored next-event time is the current minute and its day shares a bit with
  the current day.
\<close>

definition loop_events :: "state \<Rightarrow> state option" where
  "loop_events s =
     (if ts_nTime (g_tsNextEvent s) = ts_nTime (g_tsNow s)
         \<and> ts_nDay (g_tsNextEvent s) AND ts_nDay (g_tsNow s) \<noteq> 0
      then ProcessEvents s else Some s)"

text \<open>
  The timer branch of \<^verbatim>\<open>loop\<close>. The clock is read twice: \<open>now\<close> is what the first
  \<^verbatim>\<open>getTime\<close> stores in \<^verbatim>\<open>g_tsNow\<close>, \<open>now'\<close> what the second stores there after the
  outputs are written; \<open>bus\<close> is the bus result per sensor. The result carries the state
  and the values written to the boiler pin and to the pump pin.
\<close>

definition loop :: "timestamp \<Rightarrow> timestamp \<Rightarrow> (nat \<Rightarrow> cint) \<Rightarrow> state \<Rightarrow> (state \<times> bool \<times> bool) option" where
  "loop now now' bus s = do {
     s1 \<leftarrow> loop_events (s\<lparr>g_tsNow := now\<rparr>);
     (s2, bPump, bBoiler) \<leftarrow> loop_sensors bus 0 (s1, False, False);
     Some (s2\<lparr>g_tsNow := now'\<rparr>, bBoiler, bPump)
   }"

declare AddSensor_compare.simps [simp del] AddSensor_scan.simps [simp del]
declare DeleteEvent_loop.simps [simp del] ProcessEvents_loop.simps [simp del]
declare loop_sensors.simps [simp del]
declare ReadConfig_sensors.simps [simp del] ReadConfig_events.simps [simp del]

section \<open>Concrete states\<close>

text \<open>
  The globals as the C runtime zeroes them at start, over a zeroed EEPROM; the example
  states below are built from it.
\<close>

definition zone_zero :: zone where
  "zone_zero = \<lparr>nSetpoint = 0, nHyst = 0, bOn = False, bSpace = False\<rparr>"

definition event_zero :: event where
  "event_zero = \<lparr>e_nTime = 0, e_nDays = 0, e_nZone = 0, e_nValue = 0\<rparr>"

definition sensor_zero :: sensor where
  "sensor_zero = \<lparr>address = (\<lambda>_. 0), s_nValue = 0, s_nZone = 0\<rparr>"

definition state_zero :: state where
  "state_zero = \<lparr>g_nSensorQuant = 0, g_nEventQuant = 0,
     g_tsNow = \<lparr>ts_nTime = 0, ts_nDay = 0\<rparr>, g_tsNextEvent = \<lparr>ts_nTime = 0, ts_nDay = 0\<rparr>,
     g_sensors = (\<lambda>_. sensor_zero), g_events = (\<lambda>_. event_zero), g_zones = (\<lambda>_. zone_zero),
     EEPROM = (\<lambda>_. 0)\<rparr>"

text \<open>Both lists full: 100 events and 10 sensors, every sensor address all zero.\<close>

definition state_full :: state where
  "state_full = state_zero\<lparr>g_nSensorQuant := 10, g_nEventQuant := 100\<rparr>"

text \<open>
  Two events, both saved, in a list with room to spare: slot 2 is unused and zero.
\<close>

definition state_two :: state where
  "state_two = state_zero\<lparr>g_nEventQuant := 2,
     g_tsNow := \<lparr>ts_nTime = 420, ts_nDay = 2\<rparr>,
     g_tsNextEvent := \<lparr>ts_nTime = 420, ts_nDay = 2\<rparr>,
     g_events := (\<lambda>_. event_zero)
       (0 := \<lparr>e_nTime = 420, e_nDays = 2, e_nZone = 1, e_nValue = 200\<rparr>,
        1 := \<lparr>e_nTime = 1320, e_nDays = 2, e_nZone = 1, e_nValue = 150\<rparr>),
     EEPROM := (\<lambda>_. 0)
       (200 := 2, 201 := 1, 202 := 164, 203 := 1, 204 := 0, 205 := 200,
        210 := 2, 211 := 5, 212 := 40, 213 := 1, 214 := 0, 215 := 150)\<rparr>"

text \<open>Zone 0 configured with hysteresis 20 as a space-heating zone; nothing saved yet.\<close>

definition state_zone :: state where
  "state_zone = state_zero\<lparr>g_zones := (\<lambda>_. zone_zero)
     (0 := \<lparr>nSetpoint = 200, nHyst = 20, bOn = False, bSpace = True\<rparr>)\<rparr>"

text \<open>Two sensors, the first on the space-heating zone 1, the second on the water zone 2.\<close>

definition state_sensors :: state where
  "state_sensors = state_zero\<lparr>g_nSensorQuant := 2,
     g_sensors := (\<lambda>_. sensor_zero)
       (0 := \<lparr>address = (\<lambda>_. 40), s_nValue = 1500, s_nZone = 1\<rparr>,
        1 := \<lparr>address = (\<lambda>_. 41), s_nValue = 2500, s_nZone = 2\<rparr>),
     g_zones := (\<lambda>_. zone_zero)
       (1 := \<lparr>nSetpoint = 200, nHyst = 20, bOn = False, bSpace = True\<rparr>,
        2 := \<lparr>nSetpoint = 200, nHyst = 20, bOn = False, bSpace = False\<rparr>)\<rparr>"

text \<open>Two events due at the same minute for the same zone, and the state the scheduler
  is in when the stored next event is that minute.\<close>

definition state_due_twice :: state where
  "state_due_twice = state_zero\<lparr>g_nEventQuant := 2,
     g_events := (\<lambda>_. event_zero)
       (0 := \<lparr>e_nTime = 420, e_nDays = 2, e_nZone = 1, e_nValue = 200\<rparr>,
        1 := \<lparr>e_nTime = 420, e_nDays = 2, e_nZone = 1, e_nValue = 150\<rparr>),
     g_tsNow := \<lparr>ts_nTime = 420, ts_nDay = 2\<rparr>,
     g_tsNextEvent := \<lparr>ts_nTime = 420, ts_nDay = 2\<rparr>\<rparr>"

text \<open>One event, Monday 07:00, at that minute.\<close>

definition state_monday :: state where
  "state_monday = state_zero\<lparr>g_nEventQuant := 1,
     g_events := (\<lambda>_. event_zero)
       (0 := \<lparr>e_nTime = 420, e_nDays = 2, e_nZone = 0, e_nValue = 200\<rparr>),
     g_tsNow := \<lparr>ts_nTime = 420, ts_nDay = 2\<rparr>,
     g_tsNextEvent := \<lparr>ts_nTime = 420, ts_nDay = 2\<rparr>\<rparr>"

section \<open>Due events\<close>

text \<open>An event is due at \<open>now\<close>: the test of the first \<^verbatim>\<open>if\<close> in \<^verbatim>\<open>ProcessEvents\<close>.\<close>

definition due :: "timestamp \<Rightarrow> event \<Rightarrow> bool" where
  "due now e = (e_nTime e = ts_nTime now \<and> e_nDays e AND ts_nDay now \<noteq> 0)"

text \<open>An event is later today: the first two tests of the second \<^verbatim>\<open>if\<close>.\<close>

definition later_today :: "timestamp \<Rightarrow> event \<Rightarrow> bool" where
  "later_today now e = (e_nDays e AND ts_nDay now \<noteq> 0 \<and> ts_nTime now < e_nTime e)"

section \<open>Lists within their arrays\<close>

text \<open>
  The sensor list fits its array and every listed sensor is assigned one of the ten
  zones. Neither the serial command that adds a sensor nor \<^verbatim>\<open>ReadConfig\<close> checks the
  zone number, and \<^verbatim>\<open>loop\<close> indexes \<^verbatim>\<open>g_zones\<close> with it.
\<close>

definition sensors_in_range :: "state \<Rightarrow> bool" where
  "sensors_in_range s =
     (unat (g_nSensorQuant s) \<le> MAX_SENSORS \<and>
      (\<forall>k<unat (g_nSensorQuant s). unat (s_nZone (g_sensors s k)) < MAX_ZONES))"

text \<open>
  The event list fits its array and every event due at \<open>now\<close> names one of the ten
  zones: \<^verbatim>\<open>ProcessEvents\<close> indexes \<^verbatim>\<open>g_zones\<close> with the zone of a due event.
\<close>

definition events_in_range :: "timestamp \<Rightarrow> state \<Rightarrow> bool" where
  "events_in_range now s =
     (unat (g_nEventQuant s) \<le> MAX_EVENTS \<and>
      (\<forall>j<unat (g_nEventQuant s). due now (g_events s j)
          \<longrightarrow> unat (e_nZone (g_events s j)) < MAX_ZONES))"

section \<open>Deleting an event\<close>

text \<open>Slot \<open>j\<close> of the event region holds the six bytes \<^verbatim>\<open>SaveEvent\<close> writes for \<open>e\<close>.\<close>

definition event_stored :: "(nat \<Rightarrow> byte) \<Rightarrow> nat \<Rightarrow> event \<Rightarrow> bool" where
  "event_stored rom j e =
     (let a = j * EEPROM_EVENT_SIZE + EEPROM_EVENT_START in
      rom a = e_nDays e \<and>
      rom (a + 1) = ucast (drop_bit 8 (e_nTime e AND 0xFF00)) \<and>
      rom (a + 2) = ucast (e_nTime e AND 0xFF) \<and>
      rom (a + 3) = e_nZone e \<and>
      rom (a + 4) = ucast (drop_bit 8 (e_nValue e AND 0xFF00)) \<and>
      rom (a + 5) = ucast (e_nValue e AND 0xFF))"

text \<open>
  What the compaction loop started at \<open>n\<close> makes of a state: every slot from \<open>n\<close> up to,
  but not including, the count holds its successor, in memory and in the EEPROM, and
  nothing else has changed.
\<close>

definition shifted :: "nat \<Rightarrow> state \<Rightarrow> state \<Rightarrow> bool" where
  "shifted n s s' =
     (g_nEventQuant s' = g_nEventQuant s \<and> g_nSensorQuant s' = g_nSensorQuant s \<and>
      g_tsNow s' = g_tsNow s \<and> g_tsNextEvent s' = g_tsNextEvent s \<and>
      g_sensors s' = g_sensors s \<and> g_zones s' = g_zones s \<and>
      (\<forall>j. g_events s' j =
           (if n \<le> j \<and> j < unat (g_nEventQuant s) then g_events s (Suc j) else g_events s j)) \<and>
      (\<forall>j. n \<le> j \<and> j < unat (g_nEventQuant s) \<longrightarrow> event_stored (EEPROM s') j (g_events s (Suc j))) \<and>
      (\<forall>a. a < n * 10 + 200 \<or> unat (g_nEventQuant s) * 10 + 200 \<le> a \<or> 6 \<le> (a - 200) mod 10
           \<longrightarrow> EEPROM s' a = EEPROM s a))"

section \<open>Adding a sensor: the address scan\<close>

text \<open>All eight bytes equal, as the scan of \<^verbatim>\<open>AddSensor\<close> tests it.\<close>

definition same_address :: "(nat \<Rightarrow> byte) \<Rightarrow> (nat \<Rightarrow> byte) \<Rightarrow> bool" where
  "same_address p a = (\<forall>j<8. p j = a j)"

lemma AddSensor_compare_all:
  "AddSensor_compare i b p a = (if i < 8 then (\<forall>j. i \<le> j \<and> j < 8 \<longrightarrow> p j = a j) else b)"
proof (induction i b p a rule: AddSensor_compare.induct)
  case (1 i b p a)
  show ?case
  proof (cases "i < 8")
    case True
    note lt = this
    show ?thesis
    proof (cases "p i = a i")
      case True
      have "(\<forall>j. i \<le> j \<and> j < 8 \<longrightarrow> p j = a j) = (\<forall>j. Suc i \<le> j \<and> j < 8 \<longrightarrow> p j = a j)"
        using True by (metis Suc_leI le_neq_implies_less Suc_leD)
      then show ?thesis using 1 lt True
        by (subst AddSensor_compare.simps) auto
    next
      case False
      then show ?thesis using lt by (subst AddSensor_compare.simps) auto
    qed
  next
    case False
    then show ?thesis by (subst AddSensor_compare.simps) simp
  qed
qed

lemma AddSensor_compare_0: "AddSensor_compare 0 False p a = same_address p a"
  by (simp add: AddSensor_compare_all same_address_def)

lemma AddSensor_scan_none:
  "unat (g_nSensorQuant s) \<le> MAX_SENSORS \<Longrightarrow> n \<le> unat (g_nSensorQuant s) \<Longrightarrow>
   \<forall>k. n \<le> k \<and> k < unat (g_nSensorQuant s) \<longrightarrow> \<not> same_address p (address (g_sensors s k)) \<Longrightarrow>
   AddSensor_scan n p s = Some (False, unat (g_nSensorQuant s))"
proof (induction n p s rule: AddSensor_scan.induct)
  case (1 n p s)
  show ?case
  proof (cases "n < unat (g_nSensorQuant s)")
    case True
    then have nm: "\<not> AddSensor_compare 0 False p (address (g_sensors s n))"
      using "1.prems"(3) by (simp add: AddSensor_compare_0)
    have r: "rd MAX_SENSORS (g_sensors s) n = Some (g_sensors s n)"
      using True "1.prems"(1) by (simp add: rd_def)
    have "AddSensor_scan (Suc n) p s = Some (False, unat (g_nSensorQuant s))"
      using "1.IH"[OF True r nm] "1.prems" True by simp
    then show ?thesis using True r nm by (subst AddSensor_scan.simps) simp
  next
    case False
    then show ?thesis using "1.prems" by (subst AddSensor_scan.simps) simp
  qed
qed

lemma AddSensor_scan_first:
  "unat (g_nSensorQuant s) \<le> MAX_SENSORS \<Longrightarrow> n \<le> k \<Longrightarrow> k < unat (g_nSensorQuant s) \<Longrightarrow>
   same_address p (address (g_sensors s k)) \<Longrightarrow>
   \<forall>j. n \<le> j \<and> j < k \<longrightarrow> \<not> same_address p (address (g_sensors s j)) \<Longrightarrow>
   AddSensor_scan n p s = Some (True, k)"
proof (induction n p s rule: AddSensor_scan.induct)
  case (1 n p s)
  have lt: "n < unat (g_nSensorQuant s)" using "1.prems" by simp
  have r: "rd MAX_SENSORS (g_sensors s) n = Some (g_sensors s n)"
    using lt "1.prems"(1) by (simp add: rd_def)
  show ?case
  proof (cases "n = k")
    case True
    then show ?thesis using lt r "1.prems"(4)
      by (subst AddSensor_scan.simps) (simp add: AddSensor_compare_0)
  next
    case False
    then have nk: "n < k" using "1.prems"(2) by simp
    then have nm: "\<not> AddSensor_compare 0 False p (address (g_sensors s n))"
      using "1.prems"(5) by (simp add: AddSensor_compare_0)
    have "AddSensor_scan (Suc n) p s = Some (True, k)"
      using "1.IH"[OF lt r nm] "1.prems" nk by simp
    then show ?thesis using lt r nm by (subst AddSensor_scan.simps) simp
  qed
qed

section \<open>Capacity\<close>

text \<open>
  Claim C7, as the code has it. With the event count at \<open>MAX_EVENTS\<close>, \<^verbatim>\<open>AddEvent\<close>
  returns at once: the whole state (count, every event record, EEPROM) is the state it
  was called in, and, the function being void and printing nothing, the call reports
  nothing. With the sensor count at \<open>MAX_SENSORS\<close> and an address that no sensor record
  holds, \<^verbatim>\<open>AddSensor\<close> takes its early return (the path the model marks
  \<open>CapacityExceeded\<close>) with the whole state unchanged, and the one line it writes to the
  serial port says that no more sensors can be added: that line is its report.
\<close>

theorem add_at_capacity:
  "(unat (g_nEventQuant s) = MAX_EVENTS \<longrightarrow>
      AddEvent nZone nDays nTime v bSave s = Some s \<and>
      AddEvent_serial nZone nDays nTime v bSave s = []) \<and>
   (unat (g_nSensorQuant s) = MAX_SENSORS
      \<and> (\<forall>k<MAX_SENSORS. \<not> same_address pAddress (address (g_sensors s k))) \<longrightarrow>
      AddSensor pAddress z r s = Some (CapacityExceeded, s) \<and>
      AddSensor_serial pAddress s = Some [Println ''Can't add any more sensors.''])"
proof (intro conjI impI)
  assume "unat (g_nEventQuant s) = MAX_EVENTS"
  then show "AddEvent nZone nDays nTime v bSave s = Some s"
    by (simp add: AddEvent_def)
next
  show "AddEvent_serial nZone nDays nTime v bSave s = []"
    by (simp add: AddEvent_serial_def)
next
  assume a: "unat (g_nSensorQuant s) = MAX_SENSORS
      \<and> (\<forall>k<MAX_SENSORS. \<not> same_address pAddress (address (g_sensors s k)))"
  then have scan: "AddSensor_scan 0 pAddress s = Some (False, unat (g_nSensorQuant s))"
    by (intro AddSensor_scan_none) auto
  show "AddSensor pAddress z r s = Some (CapacityExceeded, s)"
    using a scan by (simp add: AddSensor_def)
  show "AddSensor_serial pAddress s = Some [Println ''Can't add any more sensors.'']"
    using a scan by (simp add: AddSensor_serial_def)
qed

theorem add_at_capacity_witness:
  "AddEvent 1 2 420 200 True state_full = Some state_full \<and>
   AddSensor (\<lambda>i. 40) 3 2150 state_full = Some (CapacityExceeded, state_full) \<and>
   AddSensor_serial (\<lambda>i. 40) state_full = Some [Println ''Can't add any more sensors.'']"
proof -
  have e: "unat (g_nEventQuant state_full) = MAX_EVENTS"
    by (simp add: state_full_def state_zero_def)
  have "\<not> same_address (\<lambda>i. 40) (address (g_sensors state_full k))" for k
    by (auto simp: state_full_def state_zero_def sensor_zero_def same_address_def
             intro: exI [of _ 0])
  then have n: "unat (g_nSensorQuant state_full) = MAX_SENSORS
      \<and> (\<forall>k<MAX_SENSORS. \<not> same_address (\<lambda>i. 40) (address (g_sensors state_full k)))"
    by (simp add: state_full_def state_zero_def)
  show ?thesis
    using add_at_capacity [of state_full 1 2 420 200 True "\<lambda>i. 40" 3 2150] e n by blast
qed

text \<open>
  The claim as stated, that \<^verbatim>\<open>AddEvent\<close> reports the failure, fails: on the full list the
  call writes nothing to the serial port and yields the state it was given, and a void
  function yields nothing else.
\<close>

theorem AddEvent_at_capacity_is_silent:
  "AddEvent_serial 1 2 420 200 True state_full = [] \<and>
   AddEvent 1 2 420 200 True state_full = Some state_full"
  by (simp add: AddEvent_serial_def AddEvent_def state_full_def state_zero_def)

section \<open>Deleting an event: the compaction loop\<close>

lemma event_copy: 
  "(x::event)\<lparr>e_nDays := e_nDays src, e_nTime := e_nTime src,
                        e_nZone := e_nZone src, e_nValue := e_nValue src\<rparr> = src"
  by simp

lemma DeleteEvent_body_Some:
  "Suc n < MAX_EVENTS \<Longrightarrow>
   DeleteEvent_body n s = Some (s\<lparr>g_events := (g_events s)(n := g_events s (Suc n)),
     EEPROM := (EEPROM s)
       (n * 10 + 200 := e_nDays (g_events s (Suc n)),
        n * 10 + 200 + 1 := ucast (drop_bit 8 (e_nTime (g_events s (Suc n)) AND 0xFF00)),
        n * 10 + 200 + 2 := ucast (e_nTime (g_events s (Suc n)) AND 0xFF),
        n * 10 + 200 + 3 := e_nZone (g_events s (Suc n)),
        n * 10 + 200 + 4 := ucast (drop_bit 8 (e_nValue (g_events s (Suc n)) AND 0xFF00)),
        n * 10 + 200 + 5 := ucast (e_nValue (g_events s (Suc n)) AND 0xFF))\<rparr>)"
  by (simp add: DeleteEvent_body_def SaveEvent_def rd_def wr_def Let_def event_copy)

lemma DeleteEvent_body_None: "MAX_EVENTS \<le> Suc n \<Longrightarrow> DeleteEvent_body n s = None"
  by (simp add: DeleteEvent_body_def rd_def)

lemma DeleteEvent_loop_full:
  "unat (g_nEventQuant s) = MAX_EVENTS \<Longrightarrow> n < MAX_EVENTS \<Longrightarrow> DeleteEvent_loop n s = None"
proof (induction n s rule: DeleteEvent_loop.induct)
  case (1 n s)
  show ?case
  proof (cases "Suc n < MAX_EVENTS")
    case True
    obtain s' where b: "DeleteEvent_body n s = Some s'"
      using DeleteEvent_body_Some[OF True] by simp
    have q: "unat (g_nEventQuant s') = MAX_EVENTS"
      using DeleteEvent_body_quant[OF b] "1.prems" by simp
    have "DeleteEvent_loop (Suc n) s' = None"
      using "1.IH"[OF _ b q True] "1.prems" by simp
    then show ?thesis using b "1.prems" by (subst DeleteEvent_loop.simps) simp
  next
    case False
    then have "DeleteEvent_body n s = None" by (simp add: DeleteEvent_body_None)
    then show ?thesis using "1.prems" by (subst DeleteEvent_loop.simps) simp
  qed
qed

lemma DeleteEvent_loop_shift:
  "unat (g_nEventQuant s) < MAX_EVENTS \<Longrightarrow> \<exists>s'. DeleteEvent_loop n s = Some s' \<and> shifted n s s'"
proof (induction n s rule: DeleteEvent_loop.induct)
  case (1 n s)
  let ?q = "unat (g_nEventQuant s)"
  show ?case
  proof (cases "n < ?q")
    case False
    then have "DeleteEvent_loop n s = Some s" by (subst DeleteEvent_loop.simps) simp
    moreover have "shifted n s s" using False by (auto simp: shifted_def)
    ultimately show ?thesis by blast
  next
    case True
    then have sn: "Suc n < MAX_EVENTS" using "1.prems" by simp
    define s1 where "s1 = s\<lparr>g_events := (g_events s)(n := g_events s (Suc n)),
     EEPROM := (EEPROM s)
       (n * 10 + 200 := e_nDays (g_events s (Suc n)),
        n * 10 + 200 + 1 := ucast (drop_bit 8 (e_nTime (g_events s (Suc n)) AND 0xFF00)),
        n * 10 + 200 + 2 := ucast (e_nTime (g_events s (Suc n)) AND 0xFF),
        n * 10 + 200 + 3 := e_nZone (g_events s (Suc n)),
        n * 10 + 200 + 4 := ucast (drop_bit 8 (e_nValue (g_events s (Suc n)) AND 0xFF00)),
        n * 10 + 200 + 5 := ucast (e_nValue (g_events s (Suc n)) AND 0xFF))\<rparr>"
    have b: "DeleteEvent_body n s = Some s1"
      unfolding s1_def by (rule DeleteEvent_body_Some[OF sn])
    have q1: "g_nEventQuant s1 = g_nEventQuant s" by (simp add: s1_def)
    obtain s' where l: "DeleteEvent_loop (Suc n) s1 = Some s'" and sh: "shifted (Suc n) s1 s'"
      using "1.IH"[OF True b] "1.prems" q1 by auto
    have loop: "DeleteEvent_loop n s = Some s'"
      using True b l by (subst DeleteEvent_loop.simps) simp
    have ev: "g_events s' j =
           (if n \<le> j \<and> j < ?q then g_events s (Suc j) else g_events s j)" for j
    proof -
      have "g_events s' j = (if Suc n \<le> j \<and> j < ?q then g_events s1 (Suc j) else g_events s1 j)"
        using sh q1 by (simp add: shifted_def)
      then show ?thesis using True by (auto simp: s1_def)
    qed
    have fr1: "EEPROM s' a = EEPROM s1 a"
      if "a < Suc n * 10 + 200 \<or> ?q * 10 + 200 \<le> a \<or> 6 \<le> (a - 200) mod 10" for a
      using sh q1 that by (auto simp: shifted_def)
    have st: "event_stored (EEPROM s') j (g_events s (Suc j))" if "n \<le> j" "j < ?q" for j
    proof (cases "j = n")
      case True
      have s1: "event_stored (EEPROM s1) n (g_events s (Suc n))"
        by (simp add: event_stored_def s1_def)
      have eq: "EEPROM s' (n * 10 + 200 + k) = EEPROM s1 (n * 10 + 200 + k)" if "k < 6" for k
        using that by (intro fr1) simp
      show ?thesis using True s1 eq[of 0] eq[of 1] eq[of 2] eq[of 3] eq[of 4] eq[of 5]
        by (simp add: event_stored_def Let_def add.commute)
    next
      case False
      then have "Suc n \<le> j" using that by simp
      then have "event_stored (EEPROM s') j (g_events s1 (Suc j))"
        using sh q1 that by (simp add: shifted_def)
      moreover have "g_events s1 (Suc j) = g_events s (Suc j)" using that by (simp add: s1_def)
      ultimately show ?thesis by simp
    qed
    have fr: "EEPROM s' a = EEPROM s a"
      if h: "a < n * 10 + 200 \<or> ?q * 10 + 200 \<le> a \<or> 6 \<le> (a - 200) mod 10" for a
    proof -
      have h1: "EEPROM s' a = EEPROM s1 a" using h by (intro fr1) auto
      have ne: "a \<noteq> n * 10 + 200 + k" if "k < 6" for k
        using h True that by (elim disjE) auto
      have "EEPROM s1 a = EEPROM s a"
        using ne[of 0] ne[of 1] ne[of 2] ne[of 3] ne[of 4] ne[of 5]
        by (simp add: s1_def)
      then show ?thesis using h1 by simp
    qed
    have "shifted n s s'"
      unfolding shifted_def using sh q1 ev st fr
      by (simp add: shifted_def s1_def)
    then show ?thesis using loop by blast
  qed
qed


text \<open>
  Claim C3, as the code has it. An index at or above the count ends the call as
  \<open>OutOfRange\<close> with the state unchanged, whatever the count. With an index below the
  count, and a count below \<open>MAX_EVENTS\<close>, the loop copies record \<open>j + 1\<close> into slot
  \<open>j\<close> and saves slot \<open>j\<close> for every \<open>j\<close> from the index up to, but not including,
  the count: one pass more than the range ending at count - 1, the last pass copying
  the unused slot at the count into the slot the list gives up. Every event above the
  index ends one slot lower with all its fields, the slots below the index keep theirs,
  the count drops by one, and nothing else changes.
\<close>

theorem DeleteEvent_compacts:
  "(g_nEventQuant s \<le> nEvent \<longrightarrow> DeleteEvent nEvent s = Some (OutOfRange, s)) \<and>
   (nEvent < g_nEventQuant s \<and> unat (g_nEventQuant s) < MAX_EVENTS \<longrightarrow>
      (\<exists>s'. DeleteEvent nEvent s = Some (Done, s') \<and>
         unat (g_nEventQuant s') = unat (g_nEventQuant s) - 1 \<and>
         (\<forall>j. unat nEvent \<le> j \<and> j < unat (g_nEventQuant s) \<longrightarrow>
              g_events s' j = g_events s (Suc j) \<and>
              event_stored (EEPROM s') j (g_events s (Suc j))) \<and>
         (\<forall>j. j < unat nEvent \<or> unat (g_nEventQuant s) \<le> j \<longrightarrow> g_events s' j = g_events s j) \<and>
         (\<forall>a. a < unat nEvent * 10 + 200 \<or> unat (g_nEventQuant s) * 10 + 200 \<le> a
                \<or> 6 \<le> (a - 200) mod 10 \<longrightarrow> EEPROM s' a = EEPROM s a) \<and>
         g_nSensorQuant s' = g_nSensorQuant s \<and> g_tsNow s' = g_tsNow s \<and>
         g_tsNextEvent s' = g_tsNextEvent s \<and> g_sensors s' = g_sensors s \<and>
         g_zones s' = g_zones s))"
proof (intro conjI impI)
  assume "g_nEventQuant s \<le> nEvent"
  then show "DeleteEvent nEvent s = Some (OutOfRange, s)" by (simp add: DeleteEvent_def)
next
  assume a: "nEvent < g_nEventQuant s \<and> unat (g_nEventQuant s) < MAX_EVENTS"
  then have q: "unat (g_nEventQuant s) < MAX_EVENTS" and lt: "nEvent < g_nEventQuant s"
    by simp_all
  obtain s1 where l: "DeleteEvent_loop (unat nEvent) s = Some s1"
    and sh: "shifted (unat nEvent) s s1"
    using DeleteEvent_loop_shift[OF q] by blast
  let ?s' = "s1\<lparr>g_nEventQuant := g_nEventQuant s1 - 1\<rparr>"
  have d: "DeleteEvent nEvent s = Some (Done, ?s')"
    using lt l by (simp add: DeleteEvent_def)
  have pos: "g_nEventQuant s \<noteq> 0" using lt by (auto simp: word_less_nat_alt)
  have c: "unat (g_nEventQuant s - 1) = unat (g_nEventQuant s) - 1"
    using pos by (simp add: unat_minus_one)
  show "\<exists>s'. DeleteEvent nEvent s = Some (Done, s') \<and>
         unat (g_nEventQuant s') = unat (g_nEventQuant s) - 1 \<and>
         (\<forall>j. unat nEvent \<le> j \<and> j < unat (g_nEventQuant s) \<longrightarrow>
              g_events s' j = g_events s (Suc j) \<and>
              event_stored (EEPROM s') j (g_events s (Suc j))) \<and>
         (\<forall>j. j < unat nEvent \<or> unat (g_nEventQuant s) \<le> j \<longrightarrow> g_events s' j = g_events s j) \<and>
         (\<forall>a. a < unat nEvent * 10 + 200 \<or> unat (g_nEventQuant s) * 10 + 200 \<le> a
                \<or> 6 \<le> (a - 200) mod 10 \<longrightarrow> EEPROM s' a = EEPROM s a) \<and>
         g_nSensorQuant s' = g_nSensorQuant s \<and> g_tsNow s' = g_tsNow s \<and>
         g_tsNextEvent s' = g_tsNextEvent s \<and> g_sensors s' = g_sensors s \<and>
         g_zones s' = g_zones s"
    apply (rule exI[of _ ?s'])
    using d sh c by (auto simp: shifted_def)
qed

theorem DeleteEvent_compacts_witness:
  "DeleteEvent 5 state_two = Some (OutOfRange, state_two) \<and>
   DeleteEvent 100 state_full = Some (OutOfRange, state_full) \<and>
   (\<exists>s'. DeleteEvent 0 state_two = Some (Done, s') \<and> unat (g_nEventQuant s') = 1 \<and>
      g_events s' 0 = g_events state_two 1 \<and> g_events s' 1 = g_events state_two 2 \<and>
      event_stored (EEPROM s') 0 (g_events state_two 1))"
proof -
  have u: "unat (g_nEventQuant state_two) = 2" by (simp add: state_two_def state_zero_def)
  have a: "g_nEventQuant state_two \<le> 5" by (simp add: state_two_def state_zero_def)
  have f: "g_nEventQuant state_full \<le> 100" by (simp add: state_full_def state_zero_def)
  have b: "0 < g_nEventQuant state_two \<and> unat (g_nEventQuant state_two) < MAX_EVENTS"
    by (simp add: state_two_def state_zero_def)
  have 1: "DeleteEvent 5 state_two = Some (OutOfRange, state_two)"
    using DeleteEvent_compacts [of state_two 5] a by blast
  have 2: "DeleteEvent 100 state_full = Some (OutOfRange, state_full)"
    using DeleteEvent_compacts [of state_full 100] f by blast
  obtain s' where d: "DeleteEvent 0 state_two = Some (Done, s')"
    and c: "unat (g_nEventQuant s') = unat (g_nEventQuant state_two) - 1"
    and e: "\<forall>j. unat (0::byte) \<le> j \<and> j < unat (g_nEventQuant state_two) \<longrightarrow>
              g_events s' j = g_events state_two (Suc j) \<and>
              event_stored (EEPROM s') j (g_events state_two (Suc j))"
    using DeleteEvent_compacts [of state_two 0] b by blast
  have "g_events s' 0 = g_events state_two 1 \<and> event_stored (EEPROM s') 0 (g_events state_two 1)"
    using e u by (metis One_nat_def le_numeral_extra(3) unat_0 zero_less_numeral)
  moreover have "g_events s' 1 = g_events state_two 2"
    using e [rule_format, of 1] u by (simp add: numeral_2_eq_2)
  ultimately show ?thesis using 1 2 d c u by auto
qed

text \<open>
  The claim as stated, with the copies ending at count - 1, fails on a list of two:
  deleting event 0 also overwrites slot 1 with the unused slot 2 and saves it.
\<close>

theorem DeleteEvent_extra_copy:
  "(case DeleteEvent 0 state_two of
      None \<Rightarrow> False
    | Some (r, s') \<Rightarrow>
        r = Done \<and> g_events s' 0 = g_events state_two 1 \<and>
        g_events s' 1 = g_events state_two 2 \<and> g_events s' 1 \<noteq> g_events state_two 1 \<and>
        EEPROM state_two 210 = 2 \<and> EEPROM s' 210 = 0)"
  by (simp add: DeleteEvent_def DeleteEvent_loop.simps DeleteEvent_body_def SaveEvent_def
        rd_def wr_def state_two_def state_zero_def event_zero_def Let_def)

text \<open>
  Claim C10. With the list full, the pass of the loop at 99 reads slot 100 of an array
  that has the slots 0 to 99: the call has no defined result, whatever the index.
\<close>

theorem DeleteEvent_reads_past_array:
  "DeleteEvent 99 state_full = None \<and> DeleteEvent 0 state_full = None"
proof -
  have q: "unat (g_nEventQuant state_full) = MAX_EVENTS"
    by (simp add: state_full_def state_zero_def)
  have "DeleteEvent_loop 99 state_full = None" and "DeleteEvent_loop 0 state_full = None"
    using q by (simp_all add: DeleteEvent_loop_full)
  then show ?thesis by (simp add: DeleteEvent_def state_full_def state_zero_def)
qed

section \<open>The hysteresis tests\<close>

text \<open>
  Claim C1, on the code. The set-point is in tenths of a degree and the stored sensor
  value in hundredths; the first test compares them without dividing by ten. With
  set-point 200 and hysteresis 20, a stored value of 1900 (19.0 degrees, inside the
  band) turns a zone that is ON to OFF; and with the claim's own numbers as stored
  values, 181 and 201 both turn an OFF zone ON.
\<close>

theorem evaluate_mixes_units:
  "bOn (evaluate \<lparr>nSetpoint = 200, nHyst = 20, bOn = True, bSpace = True\<rparr> 1900) = False \<and>
   bOn (evaluate \<lparr>nSetpoint = 200, nHyst = 20, bOn = False, bSpace = True\<rparr> 181) = True \<and>
   bOn (evaluate \<lparr>nSetpoint = 200, nHyst = 20, bOn = False, bSpace = True\<rparr> 201) = True"
  by (simp add: evaluate_def c_div_def Let_def)

section \<open>The scheduler\<close>

lemma ProcessEvents_body_Some:
  "nEvent < MAX_EVENTS \<Longrightarrow>
   (due (g_tsNow s) (g_events s nEvent) \<longrightarrow> unat (e_nZone (g_events s nEvent)) < MAX_ZONES) \<Longrightarrow>
   \<exists>s'. ProcessEvents_body nEvent s = Some s'"
  by (simp add: ProcessEvents_body_def rd_def due_def Let_def)

lemma ProcessEvents_body_frame:
  "ProcessEvents_body nEvent s = Some s' \<Longrightarrow>
   g_events s' = g_events s \<and> g_tsNow s' = g_tsNow s \<and> g_nEventQuant s' = g_nEventQuant s \<and>
   g_sensors s' = g_sensors s \<and> g_nSensorQuant s' = g_nSensorQuant s \<and> EEPROM s' = EEPROM s"
  by (auto simp: ProcessEvents_body_def rd_def bind_eq_Some_conv Let_def split: if_splits)

lemma ProcessEvents_body_zones:
  "ProcessEvents_body nEvent s = Some s' \<Longrightarrow>
   g_zones s' =
     (if due (g_tsNow s) (g_events s nEvent)
      then (g_zones s)(unat (e_nZone (g_events s nEvent)) :=
             (g_zones s (unat (e_nZone (g_events s nEvent))))\<lparr>nSetpoint := e_nValue (g_events s nEvent)\<rparr>)
      else g_zones s)"
  by (auto simp: ProcessEvents_body_def rd_def bind_eq_Some_conv Let_def due_def split: if_splits)

lemma ProcessEvents_loop_frame:
  "ProcessEvents_loop n s = Some s' \<Longrightarrow>
   g_events s' = g_events s \<and> g_tsNow s' = g_tsNow s \<and> g_nEventQuant s' = g_nEventQuant s \<and>
   g_sensors s' = g_sensors s \<and> g_nSensorQuant s' = g_nSensorQuant s \<and> EEPROM s' = EEPROM s"
proof (induction n s rule: ProcessEvents_loop.induct)
  case (1 n s)
  show ?case
  proof (cases "n < unat (g_nEventQuant s)")
    case True
    then obtain s1 where b: "ProcessEvents_body n s = Some s1"
      and l: "ProcessEvents_loop (Suc n) s1 = Some s'"
      using "1.prems" by (subst (asm) ProcessEvents_loop.simps) (auto split: option.splits)
    show ?thesis using "1.IH"[OF True b l] ProcessEvents_body_frame[OF b] by simp
  next
    case False
    then show ?thesis using "1.prems" by (subst (asm) ProcessEvents_loop.simps) simp
  qed
qed

lemma ProcessEvents_loop_Some:
  "unat (g_nEventQuant s) \<le> MAX_EVENTS \<Longrightarrow>
   \<forall>j. n \<le> j \<and> j < unat (g_nEventQuant s) \<and> due (g_tsNow s) (g_events s j)
        \<longrightarrow> unat (e_nZone (g_events s j)) < MAX_ZONES \<Longrightarrow>
   \<exists>s'. ProcessEvents_loop n s = Some s'"
proof (induction n s rule: ProcessEvents_loop.induct)
  case (1 n s)
  show ?case
  proof (cases "n < unat (g_nEventQuant s)")
    case True
    then obtain s1 where b: "ProcessEvents_body n s = Some s1"
      using ProcessEvents_body_Some[of n s] "1.prems" by auto
    note f = ProcessEvents_body_frame[OF b]
    have "\<exists>s'. ProcessEvents_loop (Suc n) s1 = Some s'"
      using "1.IH"[OF True b] "1.prems" f by auto
    then show ?thesis using True b by (subst ProcessEvents_loop.simps) simp
  next
    case False
    then show ?thesis by (subst ProcessEvents_loop.simps) simp
  qed
qed

lemma ProcessEvents_loop_other_zone:
  "ProcessEvents_loop n s = Some s' \<Longrightarrow>
   \<forall>j. n \<le> j \<and> j < unat (g_nEventQuant s) \<and> due (g_tsNow s) (g_events s j)
        \<longrightarrow> unat (e_nZone (g_events s j)) \<noteq> z \<Longrightarrow>
   g_zones s' z = g_zones s z"
proof (induction n s rule: ProcessEvents_loop.induct)
  case (1 n s)
  show ?case
  proof (cases "n < unat (g_nEventQuant s)")
    case True
    then obtain s1 where b: "ProcessEvents_body n s = Some s1"
      and l: "ProcessEvents_loop (Suc n) s1 = Some s'"
      using "1.prems"(1) by (subst (asm) ProcessEvents_loop.simps) (auto split: option.splits)
    note f = ProcessEvents_body_frame[OF b]
    have "g_zones s' z = g_zones s1 z"
      using "1.IH"[OF True b l] "1.prems"(2) f by auto
    moreover have "g_zones s1 z = g_zones s z"
      using ProcessEvents_body_zones[OF b] "1.prems"(2) True by auto
    ultimately show ?thesis by simp
  next
    case False
    then show ?thesis using "1.prems" by (subst (asm) ProcessEvents_loop.simps) simp
  qed
qed

lemma ProcessEvents_loop_last_due:
  "ProcessEvents_loop n s = Some s' \<Longrightarrow> n \<le> i \<Longrightarrow> i < unat (g_nEventQuant s) \<Longrightarrow>
   due (g_tsNow s) (g_events s i) \<Longrightarrow>
   \<forall>j. i < j \<and> j < unat (g_nEventQuant s) \<and> due (g_tsNow s) (g_events s j)
        \<longrightarrow> e_nZone (g_events s j) \<noteq> e_nZone (g_events s i) \<Longrightarrow>
   nSetpoint (g_zones s' (unat (e_nZone (g_events s i)))) = e_nValue (g_events s i)"
proof (induction n s rule: ProcessEvents_loop.induct)
  case (1 n s)
  have lt: "n < unat (g_nEventQuant s)" using "1.prems" by simp
  obtain s1 where b: "ProcessEvents_body n s = Some s1"
    and l: "ProcessEvents_loop (Suc n) s1 = Some s'"
    using "1.prems"(1) lt by (subst (asm) ProcessEvents_loop.simps) (auto split: option.splits)
  note f = ProcessEvents_body_frame[OF b]
  show ?case
  proof (cases "n = i")
    case True
    have "g_zones s' (unat (e_nZone (g_events s i))) = g_zones s1 (unat (e_nZone (g_events s i)))"
      using "1.prems"(5) f True
      by (intro ProcessEvents_loop_other_zone[OF l]) (auto simp: word_unat_eq_iff)
    then show ?thesis
      using ProcessEvents_body_zones[OF b] "1.prems"(4) True by simp
  next
    case False
    then have "Suc n \<le> i" using "1.prems"(2) by simp
    then show ?thesis using "1.IH"[OF lt b l] "1.prems" f by simp
  qed
qed


text \<open>
  Claim C2, as the code has it. Let event \<open>i\<close> of the list be due now, let no later
  event of the list be due now for the same zone, and let every event due now name a
  zone from 0 to 9 (the list holding at most \<open>MAX_EVENTS\<close> events). Then
  \<^verbatim>\<open>ProcessEvents\<close> returns and leaves the set-point of the event's zone at the event's
  value; and that is the event evaluation of the control cycle whenever the stored
  next-event minute is the current minute and the stored next-event day shares a bit
  with the current day.
\<close>

theorem due_event_sets_setpoint:
  "unat (g_nEventQuant s) \<le> MAX_EVENTS \<Longrightarrow> i < unat (g_nEventQuant s) \<Longrightarrow>
   due (g_tsNow s) (g_events s i) \<Longrightarrow>
   \<forall>j. j < unat (g_nEventQuant s) \<and> due (g_tsNow s) (g_events s j)
        \<longrightarrow> unat (e_nZone (g_events s j)) < MAX_ZONES \<Longrightarrow>
   \<forall>j. i < j \<and> j < unat (g_nEventQuant s) \<and> due (g_tsNow s) (g_events s j)
        \<longrightarrow> e_nZone (g_events s j) \<noteq> e_nZone (g_events s i) \<Longrightarrow>
   \<exists>s'. ProcessEvents s = Some s' \<and>
        nSetpoint (g_zones s' (unat (e_nZone (g_events s i)))) = e_nValue (g_events s i) \<and>
        (ts_nTime (g_tsNextEvent s) = ts_nTime (g_tsNow s)
           \<and> ts_nDay (g_tsNextEvent s) AND ts_nDay (g_tsNow s) \<noteq> 0
         \<longrightarrow> loop_events s = Some s')"
proof -
  assume q: "unat (g_nEventQuant s) \<le> MAX_EVENTS" and i: "i < unat (g_nEventQuant s)"
    and d: "due (g_tsNow s) (g_events s i)"
    and z: "\<forall>j. j < unat (g_nEventQuant s) \<and> due (g_tsNow s) (g_events s j)
        \<longrightarrow> unat (e_nZone (g_events s j)) < MAX_ZONES"
    and last: "\<forall>j. i < j \<and> j < unat (g_nEventQuant s) \<and> due (g_tsNow s) (g_events s j)
        \<longrightarrow> e_nZone (g_events s j) \<noteq> e_nZone (g_events s i)"
  let ?s0 = "s\<lparr>g_tsNextEvent := (g_tsNextEvent s)\<lparr>ts_nTime := 0xFFFF\<rparr>\<rparr>"
  obtain s1 where l: "ProcessEvents_loop 0 ?s0 = Some s1"
    using ProcessEvents_loop_Some[of ?s0 0] q z by auto
  have v: "nSetpoint (g_zones s1 (unat (e_nZone (g_events s i)))) = e_nValue (g_events s i)"
    using ProcessEvents_loop_last_due[OF l, of i] i d last by simp
  obtain s' where p: "ProcessEvents s = Some s'" and g: "g_zones s' = g_zones s1"
    using l by (auto simp: ProcessEvents_def Let_def)
  show ?thesis using p g v by (simp add: loop_events_def)
qed

theorem due_event_sets_setpoint_witness:
  "\<exists>s'. ProcessEvents state_two = Some s' \<and> nSetpoint (g_zones s' 1) = 200 \<and>
        loop_events state_two = Some s'"
proof -
  have u: "unat (g_nEventQuant state_two) = 2" by (simp add: state_two_def state_zero_def)
  have q: "unat (g_nEventQuant state_two) \<le> MAX_EVENTS" using u by simp
  have i: "0 < unat (g_nEventQuant state_two)" using u by simp
  have d: "due (g_tsNow state_two) (g_events state_two 0)"
    by (simp add: due_def state_two_def state_zero_def)
  have n1: "\<not> due (g_tsNow state_two) (g_events state_two 1)"
    by (simp add: due_def state_two_def state_zero_def)
  have z: "\<forall>j. j < unat (g_nEventQuant state_two) \<and> due (g_tsNow state_two) (g_events state_two j)
        \<longrightarrow> unat (e_nZone (g_events state_two j)) < MAX_ZONES"
  proof (intro allI impI)
    fix j assume "j < unat (g_nEventQuant state_two) \<and> due (g_tsNow state_two) (g_events state_two j)"
    then have "j = 0" using u n1 by (cases "j = 1") auto
    then show "unat (e_nZone (g_events state_two j)) < MAX_ZONES"
      by (simp add: state_two_def state_zero_def)
  qed
  have l: "\<forall>j. 0 < j \<and> j < unat (g_nEventQuant state_two) \<and> due (g_tsNow state_two) (g_events state_two j)
        \<longrightarrow> e_nZone (g_events state_two j) \<noteq> e_nZone (g_events state_two 0)"
  proof (intro allI impI)
    fix j assume a: "0 < j \<and> j < unat (g_nEventQuant state_two) \<and> due (g_tsNow state_two) (g_events state_two j)"
    then have "j = 1" using u by auto
    then show "e_nZone (g_events state_two j) \<noteq> e_nZone (g_events state_two 0)"
      using a n1 by simp
  qed
  have g: "ts_nTime (g_tsNextEvent state_two) = ts_nTime (g_tsNow state_two)
      \<and> ts_nDay (g_tsNextEvent state_two) AND ts_nDay (g_tsNow state_two) \<noteq> 0"
    by (simp add: state_two_def state_zero_def)
  have e: "unat (e_nZone (g_events state_two 0)) = 1 \<and> e_nValue (g_events state_two 0) = 200"
    by (simp add: state_two_def state_zero_def)
  show ?thesis
    using due_event_sets_setpoint [OF q i d z l] g e by auto
qed

text \<open>
  The claim as stated, for every due event, fails: of two events due at the same minute
  for the same zone the later in the list wins. The first event of the list is due, for
  zone 1 with value 200, the stored next event is that minute, the cycle runs
  \<^verbatim>\<open>ProcessEvents\<close>, and zone 1 ends at the value 150 of the second event.
\<close>

theorem later_due_event_wins:
  "due (g_tsNow state_due_twice) (g_events state_due_twice 0) \<and>
   e_nZone (g_events state_due_twice 0) = 1 \<and> e_nValue (g_events state_due_twice 0) = 200 \<and>
   ts_nTime (g_tsNextEvent state_due_twice) = ts_nTime (g_tsNow state_due_twice) \<and>
   ts_nDay (g_tsNextEvent state_due_twice) AND ts_nDay (g_tsNow state_due_twice) \<noteq> 0 \<and>
   loop_events state_due_twice = ProcessEvents state_due_twice \<and>
   map_option (\<lambda>s'. nSetpoint (g_zones s' 1)) (loop_events state_due_twice) = Some 150"
  by (simp add: due_def loop_events_def ProcessEvents_def ProcessEvents_loop.simps
        ProcessEvents_body_def rd_def state_due_twice_def state_zero_def zone_zero_def Let_def)

text \<open>
  Claim C9, on the code. \<^verbatim>\<open>ProcessEvents\<close> shifts the day stored in \<^verbatim>\<open>g_tsNextEvent\<close>,
  not the current day. In the scenario of the spec (one event, Monday 07:00, day bit 2)
  the call at Monday 420 applies the event and leaves the next event at day 4, minute
  0; the call at Monday 421 then leaves it at day 8, not at day 4.
\<close>

theorem ProcessEvents_shifts_stored_day:
  "(case ProcessEvents state_monday of
      None \<Rightarrow> False
    | Some s1 \<Rightarrow>
        nSetpoint (g_zones s1 0) = 200 \<and>
        g_tsNextEvent s1 = \<lparr>ts_nTime = 0, ts_nDay = 4\<rparr> \<and>
        (case ProcessEvents (s1\<lparr>g_tsNow := \<lparr>ts_nTime = 421, ts_nDay = 2\<rparr>\<rparr>) of
           None \<Rightarrow> False
         | Some s2 \<Rightarrow> g_tsNextEvent s2 = \<lparr>ts_nTime = 0, ts_nDay = 8\<rparr>))"
  by (simp add: ProcessEvents_def ProcessEvents_loop.simps
        ProcessEvents_body_def rd_def state_monday_def state_zero_def zone_zero_def Let_def)

section \<open>Zone records in the EEPROM\<close>

lemma ReadConfig_sensors_frame:
  "EEPROM (ReadConfig_sensors s) = EEPROM s \<and> g_zones (ReadConfig_sensors s) = g_zones s"
proof (induction s rule: ReadConfig_sensors.induct)
  case (1 s)
  show ?case
  proof (cases "unat (g_nSensorQuant s) < MAX_SENSORS
                 \<and> EEPROM s (unat (g_nSensorQuant s) * 10) \<noteq> 0")
    case True
    then show ?thesis using 1
      by (subst (1 2) ReadConfig_sensors.simps) (simp add: ReadConfig_sensor_def Let_def)
  next
    case False
    then show ?thesis by (subst (1 2) ReadConfig_sensors.simps) (auto simp: Let_def)
  qed
qed

lemma ReadConfig_events_frame:
  "EEPROM (ReadConfig_events s) = EEPROM s \<and> g_zones (ReadConfig_events s) = g_zones s"
proof (induction s rule: ReadConfig_events.induct)
  case (1 s)
  show ?case
  proof (cases "unat (g_nEventQuant s) < MAX_EVENTS
                 \<and> EEPROM s (unat (g_nEventQuant s) * 10 + 200) \<noteq> 0")
    case True
    then show ?thesis using 1
      by (subst (1 2) ReadConfig_events.simps) (simp add: ReadConfig_event_def Let_def)
  next
    case False
    then show ?thesis by (subst (1 2) ReadConfig_events.simps) (auto simp: Let_def)
  qed
qed

lemma fold_ReadConfig_zone:
  "EEPROM (fold ReadConfig_zone zs s) = EEPROM s \<and>
   g_zones (fold ReadConfig_zone zs s) z =
     (if z \<in> set zs
      then (g_zones s z)\<lparr>nHyst := EEPROM s (z * 2 + 100), bSpace := (EEPROM s (z * 2 + 100 + 1) = 1)\<rparr>
      else g_zones s z)"
proof (induction zs arbitrary: s)
  case Nil
  show ?case by simp
next
  case (Cons x xs)
  show ?case using Cons.IH[of "ReadConfig_zone x s"]
    by (auto simp: ReadConfig_zone_def Let_def)
qed

lemma ReadConfig_zones:
  "z < MAX_ZONES \<Longrightarrow>
   g_zones (ReadConfig s) z =
     (g_zones s z)\<lparr>nHyst := EEPROM s (z * 2 + 100), bSpace := (EEPROM s (z * 2 + 100 + 1) = 1)\<rparr>"
  by (simp add: ReadConfig_def Let_def fold_ReadConfig_zone ReadConfig_events_frame
        ReadConfig_sensors_frame)

text \<open>
  Claim C4, as the code has it. \<^verbatim>\<open>EEPROM_ZONE_START\<close> is 100: for a zone index from 0
  to 9, \<^verbatim>\<open>SaveZone\<close> writes the hysteresis at byte 100 + 2z and 1 or 0 for the
  space-heating flag at byte 100 + 2z + 1, and no other byte; \<^verbatim>\<open>ReadConfig\<close> reads the
  zone's hysteresis and flag from these two bytes, so that what was saved is read back.
\<close>

theorem zone_record_offsets:
  "nZone < MAX_ZONES \<Longrightarrow>
   \<exists>s'. SaveZone nZone s = Some s' \<and>
        EEPROM s' (100 + 2 * nZone) = nHyst (g_zones s nZone) \<and>
        EEPROM s' (100 + 2 * nZone + 1) = (if bSpace (g_zones s nZone) then 1 else 0) \<and>
        (\<forall>a. a \<noteq> 100 + 2 * nZone \<and> a \<noteq> 100 + 2 * nZone + 1 \<longrightarrow> EEPROM s' a = EEPROM s a) \<and>
        nHyst (g_zones (ReadConfig s') nZone) = EEPROM s' (100 + 2 * nZone) \<and>
        bSpace (g_zones (ReadConfig s') nZone) = (EEPROM s' (100 + 2 * nZone + 1) = 1) \<and>
        nHyst (g_zones (ReadConfig s') nZone) = nHyst (g_zones s nZone) \<and>
        bSpace (g_zones (ReadConfig s') nZone) = bSpace (g_zones s nZone)"
  by (simp add: SaveZone_def rd_def Let_def ReadConfig_zones mult.commute add.commute)

theorem zone_record_offsets_witness:
  "\<exists>s'. SaveZone 0 state_zone = Some s' \<and> EEPROM s' 100 = 20 \<and> EEPROM s' 101 = 1 \<and>
        nHyst (g_zones (ReadConfig s') 0) = 20 \<and> bSpace (g_zones (ReadConfig s') 0)"
proof -
  have z: "(0::nat) < MAX_ZONES" by simp
  have v: "nHyst (g_zones state_zone 0) = 20 \<and> bSpace (g_zones state_zone 0)"
    by (simp add: state_zone_def)
  show ?thesis using zone_record_offsets [OF z, of state_zone] v by auto
qed

text \<open>
  The claim as stated, with the zone region at 1100, fails: saving zone 0 writes bytes
  100 and 101 and leaves 1100 and 1101 alone, and a record placed at 1100 is not what
  \<^verbatim>\<open>ReadConfig\<close> loads into zone 0.
\<close>

theorem zone_record_not_at_1100:
  "map_option (\<lambda>s'. (EEPROM s' 100, EEPROM s' 101, EEPROM s' 1100, EEPROM s' 1101))
     (SaveZone 0 state_zone) = Some (20, 1, 0, 0) \<and>
   nHyst (g_zones (ReadConfig (state_zero\<lparr>EEPROM := (\<lambda>_. 0)(1100 := 20, 1101 := 1)\<rparr>)) 0) = 0"
  by (simp add: SaveZone_def rd_def Let_def ReadConfig_zones state_zone_def state_zero_def
        zone_zero_def)

section \<open>Adding a sensor whose address is known\<close>

text \<open>
  Claim C8, as the code has it. When some sensor record of the list (of at most
  \<open>MAX_SENSORS\<close> records) holds the address, \<^verbatim>\<open>AddSensor\<close> leaves the count as it is
  and changes one record, the first that holds the address: its zone becomes the new
  zone, and its stored value becomes the temperature read at the end of the call when
  that read succeeds; its address and every other sensor record stay as they were. The
  zone byte of that record is the only EEPROM byte written.
\<close>

theorem AddSensor_existing:
  "unat (g_nSensorQuant s) \<le> MAX_SENSORS \<Longrightarrow> k < unat (g_nSensorQuant s) \<Longrightarrow>
   same_address pAddress (address (g_sensors s k)) \<Longrightarrow>
   \<exists>m s'. m \<le> k \<and> same_address pAddress (address (g_sensors s m)) \<and>
      AddSensor pAddress nZone r s = Some (Done, s') \<and>
      g_nSensorQuant s' = g_nSensorQuant s \<and>
      g_sensors s' m = (g_sensors s m)
        \<lparr>s_nZone := nZone, s_nValue := (if r = - 2000 then s_nValue (g_sensors s m) else r)\<rparr> \<and>
      (\<forall>j. j \<noteq> m \<longrightarrow> g_sensors s' j = g_sensors s j) \<and>
      EEPROM s' = (EEPROM s)(m * 10 + 8 := nZone) \<and>
      g_nEventQuant s' = g_nEventQuant s \<and> g_events s' = g_events s \<and>
      g_zones s' = g_zones s \<and> g_tsNow s' = g_tsNow s \<and> g_tsNextEvent s' = g_tsNextEvent s"
proof -
  assume q: "unat (g_nSensorQuant s) \<le> MAX_SENSORS" and k: "k < unat (g_nSensorQuant s)"
    and a: "same_address pAddress (address (g_sensors s k))"
  define m where "m = (LEAST j. same_address pAddress (address (g_sensors s j)))"
  have ma: "same_address pAddress (address (g_sensors s m))"
    unfolding m_def using a by (rule LeastI)
  have mk: "m \<le> k" unfolding m_def using a by (rule Least_le)
  have first: "\<forall>j. 0 \<le> j \<and> j < m \<longrightarrow> \<not> same_address pAddress (address (g_sensors s j))"
    unfolding m_def using not_less_Least by blast
  have mq: "m < unat (g_nSensorQuant s)" using mk k by simp
  have scan: "AddSensor_scan 0 pAddress s = Some (True, m)"
    using AddSensor_scan_first[OF q _ mq ma first] by simp
  have m10: "m < MAX_SENSORS" using mq q by simp
  let ?s2 = "s\<lparr>g_sensors := (g_sensors s)(m := (g_sensors s m)\<lparr>s_nZone := nZone\<rparr>),
                  EEPROM := (EEPROM s)(m * 10 + 8 := nZone)\<rparr>"
  have r: "AddSensor pAddress nZone r s = Some (Done, snd (GetTemperature m r ?s2))"
    using scan m10 by (simp add: AddSensor_def rd_def)
  show ?thesis
    apply (rule exI[of _ m])
    apply (rule exI[of _ "snd (GetTemperature m r ?s2)"])
    using ma mk r m10 by (simp add: GetTemperature_def)
qed

theorem AddSensor_existing_witness:
  "\<exists>s'. AddSensor (\<lambda>i. 41) 3 (- 2000) state_sensors = Some (Done, s') \<and>
      g_nSensorQuant s' = 2 \<and>
      g_sensors s' 1 = \<lparr>address = (\<lambda>_. 41), s_nValue = 2500, s_nZone = 3\<rparr> \<and>
      g_sensors s' 0 = g_sensors state_sensors 0 \<and> EEPROM s' 18 = 3"
proof -
  have q: "unat (g_nSensorQuant state_sensors) \<le> MAX_SENSORS"
    by (simp add: state_sensors_def state_zero_def)
  have k: "1 < unat (g_nSensorQuant state_sensors)"
    by (simp add: state_sensors_def state_zero_def)
  have a: "same_address (\<lambda>i. 41) (address (g_sensors state_sensors 1))"
    by (simp add: same_address_def state_sensors_def state_zero_def)
  have n0: "\<not> same_address (\<lambda>i. 41) (address (g_sensors state_sensors 0))"
    by (auto simp: same_address_def state_sensors_def state_zero_def intro: exI[of _ 0])
  obtain m s' where m: "m \<le> 1" "same_address (\<lambda>i. 41) (address (g_sensors state_sensors m))"
    and r: "AddSensor (\<lambda>i. 41) 3 (- 2000) state_sensors = Some (Done, s')"
      "g_nSensorQuant s' = g_nSensorQuant state_sensors"
      "g_sensors s' m = (g_sensors state_sensors m)
        \<lparr>s_nZone := 3, s_nValue := (if (- 2000 :: cint) = - 2000 then s_nValue (g_sensors state_sensors m) else - 2000)\<rparr>"
      "\<forall>j. j \<noteq> m \<longrightarrow> g_sensors s' j = g_sensors state_sensors j"
      "EEPROM s' = (EEPROM state_sensors)(m * 10 + 8 := 3)"
    using AddSensor_existing [OF q k a, of 3 "- 2000"] by blast
  have "m = 1" using m n0 by (cases "m = 0") auto
  then show ?thesis using r by (simp add: state_sensors_def state_zero_def)
qed

text \<open>
  The claim as stated, that only the zone field of the matched record changes, fails
  when the temperature read at the end of \<^verbatim>\<open>AddSensor\<close> succeeds: the stored value
  1500 becomes the value read, 2150.
\<close>

theorem AddSensor_existing_refreshes_value:
  "s_nValue (g_sensors state_sensors 0) = 1500 \<and>
   map_option (\<lambda>(r, s'). (r, g_nSensorQuant s', s_nZone (g_sensors s' 0), s_nValue (g_sensors s' 0)))
     (AddSensor (\<lambda>i. 40) 3 2150 state_sensors) = Some (Done, 2, 3, 2150)"
  by (simp add: AddSensor_def AddSensor_scan.simps AddSensor_compare_0 same_address_def rd_def
        GetTemperature_def state_sensors_def state_zero_def)

section \<open>The sensor loop of the control cycle\<close>

lemma loop_body_frame:
  assumes "loop_body n r (s, p, b) = Some (s', p', b')"
  shows "n < MAX_SENSORS" and "unat (s_nZone (g_sensors s n)) < MAX_ZONES"
    and "g_nSensorQuant s' = g_nSensorQuant s"
    and "s_nZone (g_sensors s' j) = s_nZone (g_sensors s j)"
    and "j \<noteq> n \<Longrightarrow> g_sensors s' j = g_sensors s j"
    and "s_nValue (g_sensors s' n) = (if r = - 2000 then s_nValue (g_sensors s n) else r)"
    and "g_zones s' = (g_zones s)(unat (s_nZone (g_sensors s n)) :=
           evaluate (g_zones s (unat (s_nZone (g_sensors s n)))) (s_nValue (g_sensors s' n)))"
    and "b' = (b \<or> bOn (g_zones s' (unat (s_nZone (g_sensors s n)))))"
    and "p' = (p \<or> bSpace (g_zones s' (unat (s_nZone (g_sensors s n))))
                  \<and> bOn (g_zones s' (unat (s_nZone (g_sensors s n)))))"
  using assms
  by (auto simp: loop_body_def GetTemperature_def rd_def bind_eq_Some_conv Let_def
           split: if_splits)

lemma loop_sensors_step:
  assumes "loop_sensors bus n (s, p, b) = Some acc'" and "n < unat (g_nSensorQuant s)"
  obtains s1 p1 b1 where "loop_body n (bus n) (s, p, b) = Some (s1, p1, b1)"
    and "loop_sensors bus (Suc n) (s1, p1, b1) = Some acc'"
  using assms by (subst (asm) loop_sensors.simps) (auto split: option.splits)

lemma loop_sensors_stop:
  "\<not> n < unat (g_nSensorQuant s) \<Longrightarrow> loop_sensors bus n (s, p, b) = Some (s, p, b)"
  by (subst loop_sensors.simps) simp

lemma loop_sensors_frame:
  "loop_sensors bus n acc = Some acc' \<Longrightarrow>
   g_nSensorQuant (fst acc') = g_nSensorQuant (fst acc) \<and>
   (\<forall>j. s_nZone (g_sensors (fst acc') j) = s_nZone (g_sensors (fst acc) j))"
proof (induction bus n acc rule: loop_sensors.induct)
  case (1 bus n s p b)
  show ?case
  proof (cases "n < unat (g_nSensorQuant s)")
    case True
    from "1.prems" True obtain s1 p1 b1
      where bd: "loop_body n (bus n) (s, p, b) = Some (s1, p1, b1)"
        and l: "loop_sensors bus (Suc n) (s1, p1, b1) = Some acc'"
      by (rule loop_sensors_step)
    show ?thesis using "1.IH"[OF True bd l] loop_body_frame(3,4)[OF bd] by simp
  next
    case False
    then show ?thesis using "1.prems" by (simp add: loop_sensors_stop)
  qed
qed

lemma loop_sensors_other_zone:
  "loop_sensors bus n acc = Some acc' \<Longrightarrow>
   \<forall>k. n \<le> k \<and> k < unat (g_nSensorQuant (fst acc))
        \<longrightarrow> unat (s_nZone (g_sensors (fst acc) k)) \<noteq> z \<Longrightarrow>
   g_zones (fst acc') z = g_zones (fst acc) z"
proof (induction bus n acc rule: loop_sensors.induct)
  case (1 bus n s p b)
  show ?case
  proof (cases "n < unat (g_nSensorQuant s)")
    case True
    from "1.prems"(1) True obtain s1 p1 b1
      where bd: "loop_body n (bus n) (s, p, b) = Some (s1, p1, b1)"
        and l: "loop_sensors bus (Suc n) (s1, p1, b1) = Some acc'"
      by (rule loop_sensors_step)
    note f = loop_body_frame[OF bd]
    have "g_zones (fst acc') z = g_zones s1 z"
      using "1.IH"[OF True bd l] "1.prems"(2) f(3,4) by simp
    moreover have "unat (s_nZone (g_sensors s n)) \<noteq> z"
      using "1.prems"(2) True by auto
    then have "g_zones s1 z = g_zones s z"
      using f(7) by simp
    ultimately show ?thesis by simp
  next
    case False
    then show ?thesis using "1.prems" by (simp add: loop_sensors_stop)
  qed
qed

lemma loop_sensors_failed_read:
  "loop_sensors bus n acc = Some acc' \<Longrightarrow> bus k = - 2000 \<Longrightarrow>
   s_nValue (g_sensors (fst acc') k) = s_nValue (g_sensors (fst acc) k)"
proof (induction bus n acc rule: loop_sensors.induct)
  case (1 bus n s p b)
  show ?case
  proof (cases "n < unat (g_nSensorQuant s)")
    case True
    from "1.prems"(1) True obtain s1 p1 b1
      where bd: "loop_body n (bus n) (s, p, b) = Some (s1, p1, b1)"
        and l: "loop_sensors bus (Suc n) (s1, p1, b1) = Some acc'"
      by (rule loop_sensors_step)
    note f = loop_body_frame[OF bd]
    have "s_nValue (g_sensors s1 k) = s_nValue (g_sensors s k)"
      using f(5)[of k] f(6) "1.prems"(2) by (cases "k = n") auto
    then show ?thesis using "1.IH"[OF True bd l "1.prems"(2)] by simp
  next
    case False
    then show ?thesis using "1.prems" by (simp add: loop_sensors_stop)
  qed
qed

lemma loop_sensors_outputs:
  "loop_sensors bus n acc = Some acc' \<Longrightarrow>
   \<forall>j k. j < k \<and> k < unat (g_nSensorQuant (fst acc))
        \<longrightarrow> s_nZone (g_sensors (fst acc) j) \<noteq> s_nZone (g_sensors (fst acc) k) \<Longrightarrow>
   snd (snd acc') =
     (snd (snd acc) \<or> (\<exists>k. n \<le> k \<and> k < unat (g_nSensorQuant (fst acc))
         \<and> bOn (g_zones (fst acc') (unat (s_nZone (g_sensors (fst acc) k)))))) \<and>
   fst (snd acc') =
     (fst (snd acc) \<or> (\<exists>k. n \<le> k \<and> k < unat (g_nSensorQuant (fst acc))
         \<and> bSpace (g_zones (fst acc') (unat (s_nZone (g_sensors (fst acc) k))))
         \<and> bOn (g_zones (fst acc') (unat (s_nZone (g_sensors (fst acc) k))))))"
proof (induction bus n acc rule: loop_sensors.induct)
  case (1 bus n s p b)
  show ?case
  proof (cases "n < unat (g_nSensorQuant s)")
    case True
    from "1.prems"(1) True obtain s1 p1 b1
      where bd: "loop_body n (bus n) (s, p, b) = Some (s1, p1, b1)"
        and l: "loop_sensors bus (Suc n) (s1, p1, b1) = Some acc'"
      by (rule loop_sensors_step)
    note f = loop_body_frame[OF bd]
    let ?zn = "unat (s_nZone (g_sensors s n))"
    have d1: "\<forall>j k. j < k \<and> k < unat (g_nSensorQuant s1)
        \<longrightarrow> s_nZone (g_sensors s1 j) \<noteq> s_nZone (g_sensors s1 k)"
      using "1.prems"(2) f(3,4) by simp
    have ih: "snd (snd acc') =
       (b1 \<or> (\<exists>k. Suc n \<le> k \<and> k < unat (g_nSensorQuant s)
           \<and> bOn (g_zones (fst acc') (unat (s_nZone (g_sensors s k)))))) \<and>
     fst (snd acc') =
       (p1 \<or> (\<exists>k. Suc n \<le> k \<and> k < unat (g_nSensorQuant s)
           \<and> bSpace (g_zones (fst acc') (unat (s_nZone (g_sensors s k))))
           \<and> bOn (g_zones (fst acc') (unat (s_nZone (g_sensors s k))))))"
      using "1.IH"[OF True bd l] d1 f(3,4) by simp
    have ne: "s_nZone (g_sensors s n) \<noteq> s_nZone (g_sensors s k)"
      if "Suc n \<le> k" "k < unat (g_nSensorQuant s)" for k
    proof -
      have "n < k \<and> k < unat (g_nSensorQuant (fst (s, p, b)))" using that by simp
      then show ?thesis using "1.prems"(2) by (metis fst_conv)
    qed
    have "\<forall>k. Suc n \<le> k \<and> k < unat (g_nSensorQuant s1)
        \<longrightarrow> unat (s_nZone (g_sensors s1 k)) \<noteq> ?zn"
    proof (intro allI impI)
      fix k assume "Suc n \<le> k \<and> k < unat (g_nSensorQuant s1)"
      then have "s_nZone (g_sensors s n) \<noteq> s_nZone (g_sensors s k)" using ne f(3) by simp
      then show "unat (s_nZone (g_sensors s1 k)) \<noteq> ?zn"
        using f(4)[of k] by (metis word_unat_eq_iff)
    qed
    then have keep: "g_zones (fst acc') ?zn = g_zones s1 ?zn"
      using loop_sensors_other_zone[OF l, of ?zn] by simp
    have split: "(\<exists>k. n \<le> k \<and> k < unat (g_nSensorQuant s) \<and> P k) =
          (P n \<or> (\<exists>k. Suc n \<le> k \<and> k < unat (g_nSensorQuant s) \<and> P k))" for P
      using True by (metis Suc_leI le_neq_implies_less Suc_leD order_refl)
    show ?thesis
      using ih f(8,9) keep by (simp add: split disj_assoc)
  next
    case False
    then show ?thesis using "1.prems" by (auto simp: loop_sensors_stop)
  qed
qed


lemma ProcessEvents_frame:
  assumes "ProcessEvents s = Some s'"
  shows "g_sensors s' = g_sensors s \<and> g_nSensorQuant s' = g_nSensorQuant s"
proof -
  let ?s0 = "s\<lparr>g_tsNextEvent := (g_tsNextEvent s)\<lparr>ts_nTime := 0xFFFF\<rparr>\<rparr>"
  obtain s1 where l: "ProcessEvents_loop 0 ?s0 = Some s1"
    and e: "g_sensors s' = g_sensors s1 \<and> g_nSensorQuant s' = g_nSensorQuant s1"
    using assms unfolding ProcessEvents_def bind_eq_Some_conv
    by (auto simp: Let_def split: if_splits)
  show ?thesis using ProcessEvents_loop_frame[OF l] e by simp
qed

lemma loop_events_frame:
  "loop_events s = Some s' \<Longrightarrow>
   g_sensors s' = g_sensors s \<and> g_nSensorQuant s' = g_nSensorQuant s"
  by (auto simp: loop_events_def dest: ProcessEvents_frame split: if_splits)

lemma evaluate_bOn:
  "bOn (evaluate z v) =
     (if c_div v 10 <s nSetpoint z - ucast (nHyst z) then True
      else if nSetpoint z <s v then False else bOn z)"
  by (simp add: evaluate_def Let_def)

lemma evaluate_params:
  "nSetpoint (evaluate z v) = nSetpoint z \<and> nHyst (evaluate z v) = nHyst z
   \<and> bSpace (evaluate z v) = bSpace z"
  by (simp add: evaluate_def Let_def)

lemma ProcessEvents_Some:
  "events_in_range (g_tsNow s) s \<Longrightarrow> \<exists>s'. ProcessEvents s = Some s'"
proof -
  assume a: "events_in_range (g_tsNow s) s"
  let ?s0 = "s\<lparr>g_tsNextEvent := (g_tsNextEvent s)\<lparr>ts_nTime := 0xFFFF\<rparr>\<rparr>"
  have "\<exists>s1. ProcessEvents_loop 0 ?s0 = Some s1"
    using a by (intro ProcessEvents_loop_Some) (auto simp: events_in_range_def)
  then show ?thesis by (auto simp: ProcessEvents_def)
qed

lemma loop_events_Some:
  "events_in_range (g_tsNow s) s \<Longrightarrow> \<exists>s'. loop_events s = Some s'"
  using ProcessEvents_Some[of s] by (auto simp: loop_events_def)

lemma loop_body_Some:
  "n < MAX_SENSORS \<Longrightarrow> unat (s_nZone (g_sensors s n)) < MAX_ZONES \<Longrightarrow>
   \<exists>acc'. loop_body n r (s, p, b) = Some acc'"
  by (simp add: loop_body_def GetTemperature_def rd_def Let_def)

lemma loop_sensors_Some:
  "sensors_in_range (fst acc) \<Longrightarrow> \<exists>acc'. loop_sensors bus n acc = Some acc'"
proof (induction bus n acc rule: loop_sensors.induct)
  case (1 bus n s p b)
  show ?case
  proof (cases "n < unat (g_nSensorQuant s)")
    case True
    then have "n < MAX_SENSORS" "unat (s_nZone (g_sensors s n)) < MAX_ZONES"
      using "1.prems" by (auto simp: sensors_in_range_def)
    then obtain s1 p1 b1 where bd: "loop_body n (bus n) (s, p, b) = Some (s1, p1, b1)"
      using loop_body_Some[of n s "bus n" p b] by (metis prod_cases3)
    note f = loop_body_frame[OF bd]
    have "sensors_in_range s1" using "1.prems" f(3,4) by (simp add: sensors_in_range_def)
    then obtain acc' where l: "loop_sensors bus (Suc n) (s1, p1, b1) = Some acc'"
      using "1.IH"[OF True bd] by auto
    have "loop_sensors bus n (s, p, b) = loop_sensors bus (Suc n) (s1, p1, b1)"
      using True bd by (subst loop_sensors.simps) simp
    then show ?thesis using l by metis
  next
    case False
    then show ?thesis by (simp add: loop_sensors_stop)
  qed
qed

lemma loop_sensors_params:
  "loop_sensors bus n acc = Some acc' \<Longrightarrow>
   nSetpoint (g_zones (fst acc') z) = nSetpoint (g_zones (fst acc) z) \<and>
   nHyst (g_zones (fst acc') z) = nHyst (g_zones (fst acc) z) \<and>
   bSpace (g_zones (fst acc') z) = bSpace (g_zones (fst acc) z)"
proof (induction bus n acc rule: loop_sensors.induct)
  case (1 bus n s p b)
  show ?case
  proof (cases "n < unat (g_nSensorQuant s)")
    case True
    from "1.prems" True obtain s1 p1 b1
      where bd: "loop_body n (bus n) (s, p, b) = Some (s1, p1, b1)"
        and l: "loop_sensors bus (Suc n) (s1, p1, b1) = Some acc'"
      by (rule loop_sensors_step)
    have "nSetpoint (g_zones s1 z) = nSetpoint (g_zones s z) \<and>
          nHyst (g_zones s1 z) = nHyst (g_zones s z) \<and> bSpace (g_zones s1 z) = bSpace (g_zones s z)"
      using loop_body_frame(7)[OF bd] by (simp add: evaluate_params)
    then show ?thesis using "1.IH"[OF True bd l] by simp
  next
    case False
    then show ?thesis using "1.prems" by (simp add: loop_sensors_stop)
  qed
qed

lemma loop_sensors_mono:
  "loop_sensors bus n acc = Some acc' \<Longrightarrow>
   (snd (snd acc) \<longrightarrow> snd (snd acc')) \<and> (fst (snd acc) \<longrightarrow> fst (snd acc'))"
proof (induction bus n acc rule: loop_sensors.induct)
  case (1 bus n s p b)
  show ?case
  proof (cases "n < unat (g_nSensorQuant s)")
    case True
    from "1.prems" True obtain s1 p1 b1
      where bd: "loop_body n (bus n) (s, p, b) = Some (s1, p1, b1)"
        and l: "loop_sensors bus (Suc n) (s1, p1, b1) = Some acc'"
      by (rule loop_sensors_step)
    show ?thesis using "1.IH"[OF True bd l] loop_body_frame(8,9)[OF bd] by auto
  next
    case False
    then show ?thesis using "1.prems" by (simp add: loop_sensors_stop)
  qed
qed

lemma loop_sensors_on:
  "loop_sensors bus n acc = Some acc' \<Longrightarrow>
   n \<le> k \<Longrightarrow> k < unat (g_nSensorQuant (fst acc)) \<Longrightarrow>
   bOn (g_zones (fst acc') (unat (s_nZone (g_sensors (fst acc) k)))) \<Longrightarrow>
   snd (snd acc') \<and>
   (bSpace (g_zones (fst acc') (unat (s_nZone (g_sensors (fst acc) k)))) \<longrightarrow> fst (snd acc'))"
proof (induction bus n acc arbitrary: k rule: loop_sensors.induct)
  case (1 bus n s p b)
  let ?z = "unat (s_nZone (g_sensors s k))"
  have lt: "n < unat (g_nSensorQuant s)" using "1.prems" by simp
  from "1.prems"(1) lt obtain s1 p1 b1
    where bd: "loop_body n (bus n) (s, p, b) = Some (s1, p1, b1)"
      and l: "loop_sensors bus (Suc n) (s1, p1, b1) = Some acc'"
    by (rule loop_sensors_step)
  note f = loop_body_frame[OF bd]
  show ?case
  proof (cases "\<exists>j. Suc n \<le> j \<and> j < unat (g_nSensorQuant s)
                    \<and> unat (s_nZone (g_sensors s j)) = ?z")
    case True
    then obtain j where j: "Suc n \<le> j" "j < unat (g_nSensorQuant s)"
      "unat (s_nZone (g_sensors s j)) = ?z" by blast
    have "bOn (g_zones (fst acc') (unat (s_nZone (g_sensors (fst (s1, p1, b1)) j))))"
      using "1.prems"(4) j(3) f(4) by simp
    then show ?thesis
      using "1.IH"[OF lt bd l, of j] j f(3,4) by simp
  next
    case False
    have nk: "k = n"
    proof (rule ccontr)
      assume "k \<noteq> n"
      then have "Suc n \<le> k \<and> k < unat (g_nSensorQuant s)" using "1.prems"(2,3) by simp
      then show False using False by blast
    qed
    have "\<forall>j. Suc n \<le> j \<and> j < unat (g_nSensorQuant (fst (s1, p1, b1)))
        \<longrightarrow> unat (s_nZone (g_sensors (fst (s1, p1, b1)) j)) \<noteq> ?z"
      using False f(3,4) by simp
    then have keep: "g_zones (fst acc') ?z = g_zones s1 ?z"
      using loop_sensors_other_zone[OF l, of ?z] by simp
    have "b1 \<and> (bSpace (g_zones s1 ?z) \<longrightarrow> p1)"
      using f(8,9) "1.prems"(4) keep nk by simp
    then show ?thesis using loop_sensors_mono[OF l] keep by simp
  qed
qed

lemma loop_sensors_earlier_sensor:
  "loop_sensors bus n acc = Some acc' \<Longrightarrow> k < n \<Longrightarrow>
   g_sensors (fst acc') k = g_sensors (fst acc) k"
proof (induction bus n acc rule: loop_sensors.induct)
  case (1 bus n s p b)
  show ?case
  proof (cases "n < unat (g_nSensorQuant s)")
    case True
    from "1.prems"(1) True obtain s1 p1 b1
      where bd: "loop_body n (bus n) (s, p, b) = Some (s1, p1, b1)"
        and l: "loop_sensors bus (Suc n) (s1, p1, b1) = Some acc'"
      by (rule loop_sensors_step)
    have "g_sensors s1 k = g_sensors s k"
      using loop_body_frame(5)[OF bd, of k] "1.prems"(2) by simp
    then show ?thesis using "1.IH"[OF True bd l] "1.prems"(2) by simp
  next
    case False
    then show ?thesis using "1.prems" by (simp add: loop_sensors_stop)
  qed
qed

lemma loop_sensors_last_pass:
  "loop_sensors bus n acc = Some acc' \<Longrightarrow>
   n \<le> k \<Longrightarrow> k < unat (g_nSensorQuant (fst acc)) \<Longrightarrow>
   \<forall>j. k < j \<and> j < unat (g_nSensorQuant (fst acc))
        \<longrightarrow> s_nZone (g_sensors (fst acc) j) \<noteq> s_nZone (g_sensors (fst acc) k) \<Longrightarrow>
   \<exists>z0. g_zones (fst acc') (unat (s_nZone (g_sensors (fst acc) k))) =
          evaluate z0 (s_nValue (g_sensors (fst acc') k))"
proof (induction bus n acc rule: loop_sensors.induct)
  case (1 bus n s p b)
  let ?z = "unat (s_nZone (g_sensors s k))"
  have lt: "n < unat (g_nSensorQuant s)" using "1.prems" by simp
  from "1.prems"(1) lt obtain s1 p1 b1
    where bd: "loop_body n (bus n) (s, p, b) = Some (s1, p1, b1)"
      and l: "loop_sensors bus (Suc n) (s1, p1, b1) = Some acc'"
    by (rule loop_sensors_step)
  note f = loop_body_frame[OF bd]
  show ?case
  proof (cases "n = k")
    case True
    have "\<forall>j. Suc n \<le> j \<and> j < unat (g_nSensorQuant (fst (s1, p1, b1)))
        \<longrightarrow> unat (s_nZone (g_sensors (fst (s1, p1, b1)) j)) \<noteq> ?z"
    proof (intro allI impI)
      fix j assume a: "Suc n \<le> j \<and> j < unat (g_nSensorQuant (fst (s1, p1, b1)))"
      then have "k < j \<and> j < unat (g_nSensorQuant (fst (s, p, b)))" using True f(3) by simp
      then have "s_nZone (g_sensors s j) \<noteq> s_nZone (g_sensors s k)"
        using "1.prems"(4) by (metis fst_conv)
      then show "unat (s_nZone (g_sensors (fst (s1, p1, b1)) j)) \<noteq> ?z"
        using f(4)[of j] by (metis fst_conv word_unat_eq_iff)
    qed
    then have keep: "g_zones (fst acc') ?z = g_zones s1 ?z"
      using loop_sensors_other_zone[OF l, of ?z] by simp
    have val: "g_sensors (fst acc') k = g_sensors s1 k"
      using loop_sensors_earlier_sensor[OF l, of k] True by simp
    have "g_zones s1 ?z = evaluate (g_zones s ?z) (s_nValue (g_sensors s1 k))"
      using f(7) True by simp
    then show ?thesis using keep val by auto
  next
    case False
    then have "Suc n \<le> k" using "1.prems"(2) by simp
    moreover have "\<forall>j. k < j \<and> j < unat (g_nSensorQuant (fst (s1, p1, b1)))
        \<longrightarrow> s_nZone (g_sensors (fst (s1, p1, b1)) j) \<noteq> s_nZone (g_sensors (fst (s1, p1, b1)) k)"
      using "1.prems"(4) f(3,4) by simp
    ultimately show ?thesis
      using "1.IH"[OF lt bd l] "1.prems"(3) f(3,4) by simp
  qed
qed


lemmas run_loop = loop_def loop_events_def loop_sensors.simps loop_body_def GetTemperature_def
  evaluate_def c_div_def rd_def Let_def state_sensors_def state_zero_def zone_zero_def
  sensor_zero_def

lemma loop_split:
  assumes "sensors_in_range s" and "events_in_range now s"
  obtains s1 s2 bPump bBoiler where "loop_events (s\<lparr>g_tsNow := now\<rparr>) = Some s1"
    and "g_sensors s1 = g_sensors s" and "g_nSensorQuant s1 = g_nSensorQuant s"
    and "loop_sensors bus 0 (s1, False, False) = Some (s2, bPump, bBoiler)"
    and "loop now now' bus s = Some (s2\<lparr>g_tsNow := now'\<rparr>, bBoiler, bPump)"
proof -
  have "events_in_range (g_tsNow (s\<lparr>g_tsNow := now\<rparr>)) (s\<lparr>g_tsNow := now\<rparr>)"
    using assms(2) by (simp add: events_in_range_def)
  then obtain s1 where e: "loop_events (s\<lparr>g_tsNow := now\<rparr>) = Some s1"
    using loop_events_Some by blast
  have f: "g_sensors s1 = g_sensors s \<and> g_nSensorQuant s1 = g_nSensorQuant s"
    using loop_events_frame[OF e] by simp
  then have "sensors_in_range (fst (s1, False, False))"
    using assms(1) by (simp add: sensors_in_range_def)
  then obtain acc' where "loop_sensors bus 0 (s1, False, False) = Some acc'"
    using loop_sensors_Some by blast
  then obtain s2 bPump bBoiler
    where l: "loop_sensors bus 0 (s1, False, False) = Some (s2, bPump, bBoiler)"
    by (metis prod_cases3)
  have "loop now now' bus s = Some (s2\<lparr>g_tsNow := now'\<rparr>, bBoiler, bPump)"
    using e l by (simp add: loop_def)
  then show ?thesis using that e f l by blast
qed

lemma state_sensors_in_range:
  "sensors_in_range state_sensors \<and> events_in_range now state_sensors
   \<and> unat (g_nSensorQuant state_sensors) = 2"
  by (simp add: sensors_in_range_def events_in_range_def state_sensors_def state_zero_def
        sensor_zero_def)

text \<open>
  Claim C5, as the code has it. Take a control cycle that starts with at most
  \<open>MAX_SENSORS\<close> sensors, each assigned a zone from 0 to 9, and at most \<open>MAX_EVENTS\<close>
  events, each event due now naming a zone from 0 to 9. The cycle ends, and at its end:
  every zone that a listed sensor is assigned to and that is ON has the boiler on and,
  if it is a space-heating zone, the pump on; and when no two listed sensors are
  assigned the same zone, the boiler output is exactly the OR of the ON states of the
  zones that have a listed sensor, and the pump output exactly that OR restricted to
  the space-heating ones. Zones without a listed sensor do not contribute.
\<close>

theorem outputs_follow_sensed_zones:
  "sensors_in_range s \<Longrightarrow> events_in_range now s \<Longrightarrow>
   \<exists>s' bBoiler bPump.
      loop now now' bus s = Some (s', bBoiler, bPump) \<and>
      (\<forall>k<unat (g_nSensorQuant s).
          bOn (g_zones s' (unat (s_nZone (g_sensors s k)))) \<longrightarrow>
          bBoiler \<and> (bSpace (g_zones s' (unat (s_nZone (g_sensors s k)))) \<longrightarrow> bPump)) \<and>
      ((\<forall>j k. j < k \<and> k < unat (g_nSensorQuant s)
            \<longrightarrow> s_nZone (g_sensors s j) \<noteq> s_nZone (g_sensors s k)) \<longrightarrow>
         bBoiler = (\<exists>k<unat (g_nSensorQuant s). bOn (g_zones s' (unat (s_nZone (g_sensors s k))))) \<and>
         bPump = (\<exists>k<unat (g_nSensorQuant s).
                    bSpace (g_zones s' (unat (s_nZone (g_sensors s k))))
                    \<and> bOn (g_zones s' (unat (s_nZone (g_sensors s k))))))"
proof -
  assume sr: "sensors_in_range s" and er: "events_in_range now s"
  from sr er obtain s1 s2 bPump bBoiler
    where f: "g_sensors s1 = g_sensors s" "g_nSensorQuant s1 = g_nSensorQuant s"
      and l: "loop_sensors bus 0 (s1, False, False) = Some (s2, bPump, bBoiler)"
      and run: "loop now now' bus s = Some (s2\<lparr>g_tsNow := now'\<rparr>, bBoiler, bPump)"
    by (rule loop_split)
  have on: "bBoiler \<and> (bSpace (g_zones s2 (unat (s_nZone (g_sensors s k)))) \<longrightarrow> bPump)"
    if "k < unat (g_nSensorQuant s)" "bOn (g_zones s2 (unat (s_nZone (g_sensors s k))))" for k
    using loop_sensors_on[OF l, of k] that f by simp
  have eq: "bBoiler = (\<exists>k<unat (g_nSensorQuant s). bOn (g_zones s2 (unat (s_nZone (g_sensors s k))))) \<and>
         bPump = (\<exists>k<unat (g_nSensorQuant s).
                    bSpace (g_zones s2 (unat (s_nZone (g_sensors s k))))
                    \<and> bOn (g_zones s2 (unat (s_nZone (g_sensors s k)))))"
    if "\<forall>j k. j < k \<and> k < unat (g_nSensorQuant s)
            \<longrightarrow> s_nZone (g_sensors s j) \<noteq> s_nZone (g_sensors s k)"
    using loop_sensors_outputs[OF l] that f by simp
  show ?thesis
    apply (rule exI[of _ "s2\<lparr>g_tsNow := now'\<rparr>"])
    apply (rule exI[of _ bBoiler])
    apply (rule exI[of _ bPump])
    using run on eq by simp
qed

theorem outputs_follow_sensed_zones_witness:
  "\<exists>s' bBoiler bPump.
      loop \<lparr>ts_nTime = 420, ts_nDay = 2\<rparr> \<lparr>ts_nTime = 420, ts_nDay = 2\<rparr>
        (\<lambda>k. if k = 0 then 1500 else 2500) state_sensors = Some (s', bBoiler, bPump) \<and>
      bOn (g_zones s' 1) \<and> \<not> bOn (g_zones s' 2) \<and> bBoiler \<and> bPump \<and>
      bBoiler = (\<exists>k<2. bOn (g_zones s' (unat (s_nZone (g_sensors state_sensors k)))))"
proof -
  let ?now = "\<lparr>ts_nTime = 420, ts_nDay = 2\<rparr>"
  let ?bus = "\<lambda>k::nat. if k = 0 then 1500 else (2500::cint)"
  note r = state_sensors_in_range[of ?now]
  have d: "\<forall>j k. j < k \<and> k < unat (g_nSensorQuant state_sensors)
        \<longrightarrow> s_nZone (g_sensors state_sensors j) \<noteq> s_nZone (g_sensors state_sensors k)"
  proof (intro allI impI)
    fix j k assume "j < k \<and> k < unat (g_nSensorQuant state_sensors)"
    then have "j = 0 \<and> k = 1" using r by auto
    then show "s_nZone (g_sensors state_sensors j) \<noteq> s_nZone (g_sensors state_sensors k)"
      by (simp add: state_sensors_def state_zero_def)
  qed
  obtain s' bBoiler bPump
    where run: "loop ?now ?now ?bus state_sensors = Some (s', bBoiler, bPump)"
      and on: "\<forall>k<unat (g_nSensorQuant state_sensors).
          bOn (g_zones s' (unat (s_nZone (g_sensors state_sensors k)))) \<longrightarrow>
          bBoiler \<and> (bSpace (g_zones s' (unat (s_nZone (g_sensors state_sensors k)))) \<longrightarrow> bPump)"
      and eq: "(\<forall>j k. j < k \<and> k < unat (g_nSensorQuant state_sensors)
            \<longrightarrow> s_nZone (g_sensors state_sensors j) \<noteq> s_nZone (g_sensors state_sensors k)) \<longrightarrow>
         bBoiler = (\<exists>k<unat (g_nSensorQuant state_sensors).
                      bOn (g_zones s' (unat (s_nZone (g_sensors state_sensors k)))))"
    using outputs_follow_sensed_zones [of state_sensors ?now ?now ?bus] r by blast
  have z: "bOn (g_zones s' 1) \<and> \<not> bOn (g_zones s' 2) \<and> bSpace (g_zones s' 1)"
    using run by (auto simp: run_loop)
  have z1: "unat (s_nZone (g_sensors state_sensors 0)) = 1"
    by (simp add: state_sensors_def state_zero_def)
  have "bBoiler \<and> bPump" using on [rule_format, of 0] r z z1 by simp
  then show ?thesis using run z eq d r by auto
qed

text \<open>
  The claim as stated fails twice, on cycles that end. With two sensors on zone 1, the
  first reading 15.00 and the second 25.00, the first pass turns the zone ON and both
  outputs on, the second turns the zone OFF again: the cycle ends with boiler and pump
  on and no zone ON. With no sensor listed and zone 1 ON, the cycle ends with both
  outputs off.
\<close>

theorem outputs_miss_zone_states:
  "(case loop \<lparr>ts_nTime = 420, ts_nDay = 2\<rparr> \<lparr>ts_nTime = 420, ts_nDay = 2\<rparr>
          (\<lambda>k. if k = 0 then 1500 else 2500)
          (state_sensors\<lparr>g_sensors := (g_sensors state_sensors)
             (1 := \<lparr>address = (\<lambda>_. 41), s_nValue = 2500, s_nZone = 1\<rparr>)\<rparr>) of
      None \<Rightarrow> False
    | Some (s', bBoiler, bPump) \<Rightarrow>
        bBoiler \<and> bPump \<and> \<not> (\<exists>z<MAX_ZONES. bOn (g_zones s' z))) \<and>
   (case loop \<lparr>ts_nTime = 420, ts_nDay = 2\<rparr> \<lparr>ts_nTime = 420, ts_nDay = 2\<rparr> (\<lambda>k. 2500)
          (state_sensors\<lparr>g_nSensorQuant := 0, g_zones := (g_zones state_sensors)
             (1 := \<lparr>nSetpoint = 200, nHyst = 20, bOn = True, bSpace = True\<rparr>)\<rparr>) of
      None \<Rightarrow> False
    | Some (s', bBoiler, bPump) \<Rightarrow>
        \<not> bBoiler \<and> \<not> bPump \<and> bSpace (g_zones s' 1) \<and> bOn (g_zones s' 1))"
  by (simp add: run_loop)

text \<open>
  Claim C6, as the code has it. Take a control cycle that starts with at most
  \<open>MAX_SENSORS\<close> sensors, each assigned a zone from 0 to 9, and at most \<open>MAX_EVENTS\<close>
  events, each event due now naming a zone from 0 to 9, and a listed sensor whose read
  fails in that cycle (the bus returns -2000). The cycle ends and the sensor's stored
  value is the value it had. The zone of the sensor is still evaluated against that
  retained value: when no later sensor of the list is assigned the same zone, the zone
  ends the cycle ON, with the boiler on and, for a space-heating zone, the pump on, if
  the retained value divided by 10 is below set-point minus hysteresis; and it ends
  the cycle OFF if that test fails and the set-point is below the retained value.
\<close>

theorem failed_read_keeps_value:
  "sensors_in_range s \<Longrightarrow> events_in_range now s \<Longrightarrow>
   k < unat (g_nSensorQuant s) \<Longrightarrow> bus k = - 2000 \<Longrightarrow>
   \<exists>s' bBoiler bPump.
      loop now now' bus s = Some (s', bBoiler, bPump) \<and>
      s_nValue (g_sensors s' k) = s_nValue (g_sensors s k) \<and>
      ((\<forall>j. k < j \<and> j < unat (g_nSensorQuant s)
            \<longrightarrow> s_nZone (g_sensors s j) \<noteq> s_nZone (g_sensors s k)) \<longrightarrow>
         (let z = g_zones s' (unat (s_nZone (g_sensors s k)));
              v = s_nValue (g_sensors s k)
          in (c_div v 10 <s nSetpoint z - ucast (nHyst z) \<longrightarrow>
                bOn z \<and> bBoiler \<and> (bSpace z \<longrightarrow> bPump)) \<and>
             (\<not> c_div v 10 <s nSetpoint z - ucast (nHyst z) \<and> nSetpoint z <s v \<longrightarrow>
                \<not> bOn z)))"
proof -
  assume sr: "sensors_in_range s" and er: "events_in_range now s"
    and k: "k < unat (g_nSensorQuant s)" and fail: "bus k = - 2000"
  from sr er obtain s1 s2 bPump bBoiler
    where f: "g_sensors s1 = g_sensors s" "g_nSensorQuant s1 = g_nSensorQuant s"
      and l: "loop_sensors bus 0 (s1, False, False) = Some (s2, bPump, bBoiler)"
      and run: "loop now now' bus s = Some (s2\<lparr>g_tsNow := now'\<rparr>, bBoiler, bPump)"
    by (rule loop_split)
  let ?z = "g_zones s2 (unat (s_nZone (g_sensors s k)))"
  let ?v = "s_nValue (g_sensors s k)"
  have val: "s_nValue (g_sensors s2 k) = ?v"
    using loop_sensors_failed_read[OF l fail] f by simp
  have forced: "(c_div ?v 10 <s nSetpoint ?z - ucast (nHyst ?z) \<longrightarrow>
                bOn ?z \<and> bBoiler \<and> (bSpace ?z \<longrightarrow> bPump)) \<and>
             (\<not> c_div ?v 10 <s nSetpoint ?z - ucast (nHyst ?z) \<and> nSetpoint ?z <s ?v \<longrightarrow>
                \<not> bOn ?z)"
    if last: "\<forall>j. k < j \<and> j < unat (g_nSensorQuant s)
            \<longrightarrow> s_nZone (g_sensors s j) \<noteq> s_nZone (g_sensors s k)"
  proof -
    obtain z0 where z: "?z = evaluate z0 ?v"
      using loop_sensors_last_pass[OF l, of k] k last f val by auto
    have b: "bOn ?z = (if c_div ?v 10 <s nSetpoint ?z - ucast (nHyst ?z) then True
                       else if nSetpoint ?z <s ?v then False else bOn z0)"
      using z evaluate_bOn[of z0 ?v] evaluate_params[of z0 ?v] by simp
    have o: "bOn ?z \<longrightarrow> bBoiler \<and> (bSpace ?z \<longrightarrow> bPump)"
      using loop_sensors_on[OF l, of k] k f by simp
    show ?thesis using b o by auto
  qed
  show ?thesis
    apply (rule exI[of _ "s2\<lparr>g_tsNow := now'\<rparr>"])
    apply (rule exI[of _ bBoiler])
    apply (rule exI[of _ bPump])
    using run val forced by (simp add: Let_def)
qed

theorem failed_read_keeps_value_witness:
  "\<exists>s' bBoiler bPump.
      loop \<lparr>ts_nTime = 420, ts_nDay = 2\<rparr> \<lparr>ts_nTime = 420, ts_nDay = 2\<rparr> (\<lambda>k. - 2000)
        state_sensors = Some (s', bBoiler, bPump) \<and>
      s_nValue (g_sensors s' 0) = 1500 \<and> bOn (g_zones s' 1) \<and> bBoiler \<and> bPump"
proof -
  let ?now = "\<lparr>ts_nTime = 420, ts_nDay = 2\<rparr>"
  let ?bus = "\<lambda>k::nat. (- 2000::cint)"
  note r = state_sensors_in_range[of ?now]
  have k: "0 < unat (g_nSensorQuant state_sensors)" using r by simp
  have fail: "?bus 0 = - 2000" by simp
  have v: "s_nValue (g_sensors state_sensors 0) = 1500"
    and z1: "unat (s_nZone (g_sensors state_sensors 0)) = 1"
    by (simp_all add: state_sensors_def state_zero_def)
  have last: "\<forall>j. 0 < j \<and> j < unat (g_nSensorQuant state_sensors)
        \<longrightarrow> s_nZone (g_sensors state_sensors j) \<noteq> s_nZone (g_sensors state_sensors 0)"
  proof (intro allI impI)
    fix j assume "0 < j \<and> j < unat (g_nSensorQuant state_sensors)"
    then have "j = 1" using r by auto
    then show "s_nZone (g_sensors state_sensors j) \<noteq> s_nZone (g_sensors state_sensors 0)"
      by (simp add: state_sensors_def state_zero_def)
  qed
  obtain s' bBoiler bPump
    where run: "loop ?now ?now ?bus state_sensors = Some (s', bBoiler, bPump)"
      and val: "s_nValue (g_sensors s' 0) = s_nValue (g_sensors state_sensors 0)"
      and forced: "(\<forall>j. 0 < j \<and> j < unat (g_nSensorQuant state_sensors)
            \<longrightarrow> s_nZone (g_sensors state_sensors j) \<noteq> s_nZone (g_sensors state_sensors 0)) \<longrightarrow>
         (let z = g_zones s' (unat (s_nZone (g_sensors state_sensors 0)));
              v = s_nValue (g_sensors state_sensors 0)
          in (c_div v 10 <s nSetpoint z - ucast (nHyst z) \<longrightarrow>
                bOn z \<and> bBoiler \<and> (bSpace z \<longrightarrow> bPump)) \<and>
             (\<not> c_div v 10 <s nSetpoint z - ucast (nHyst z) \<and> nSetpoint z <s v \<longrightarrow>
                \<not> bOn z))"
    using failed_read_keeps_value [of state_sensors ?now 0 ?bus ?now] r k fail by blast
  have p: "nSetpoint (g_zones s' 1) = 200 \<and> nHyst (g_zones s' 1) = 20 \<and> bSpace (g_zones s' 1)"
    using run by (auto simp: run_loop)
  have fl: "c_div 1500 10 <s (200::cint) - ucast (20::byte)" by (simp add: c_div_def)
  have "bOn (g_zones s' 1) \<and> bBoiler \<and> bPump"
    using forced last p fl v z1 by (simp add: Let_def)
  then show ?thesis using run val v by auto
qed

text \<open>
  The claim as stated, that a failed read leaves the zone alone, fails: with every read
  failing, the sensor on zone 1 keeps its 15.00, and the cycle turns zone 1, which was
  OFF, ON and puts boiler and pump on.
\<close>

theorem failed_read_still_forces_zone:
  "(case loop \<lparr>ts_nTime = 420, ts_nDay = 2\<rparr> \<lparr>ts_nTime = 420, ts_nDay = 2\<rparr> (\<lambda>k. - 2000)
          state_sensors of
      None \<Rightarrow> False
    | Some (s', bBoiler, bPump) \<Rightarrow>
        \<not> bOn (g_zones state_sensors 1) \<and> bOn (g_zones s' 1) \<and> bBoiler \<and> bPump \<and>
        s_nValue (g_sensors s' 0) = 1500)"
  by (simp add: run_loop)

section \<open>Further properties of the code\<close>

text \<open>
  The two tests of the cycle in one: a stored value whose tenth lies below set-point
  minus hysteresis turns the zone ON; otherwise a stored value above the set-point
  turns it OFF; otherwise the state is kept. Nothing but the state changes.
\<close>

theorem evaluate_cases:
  "evaluate z v =
     z\<lparr>bOn := (if c_div v 10 <s nSetpoint z - ucast (nHyst z) then True
               else if nSetpoint z <s v then False
               else bOn z)\<rparr>"
  by (simp add: evaluate_def Let_def)

lemma ProcessEvents_body_next:
  "ProcessEvents_body n s = Some s' \<Longrightarrow> \<not> later_today (g_tsNow s) (g_events s n) \<Longrightarrow>
   g_tsNextEvent s' = g_tsNextEvent s"
  by (auto simp: ProcessEvents_body_def rd_def bind_eq_Some_conv Let_def later_today_def
           split: if_splits)

lemma ProcessEvents_loop_next:
  "ProcessEvents_loop n s = Some s' \<Longrightarrow>
   \<forall>j. n \<le> j \<and> j < unat (g_nEventQuant s) \<longrightarrow> \<not> later_today (g_tsNow s) (g_events s j) \<Longrightarrow>
   g_tsNextEvent s' = g_tsNextEvent s"
proof (induction n s rule: ProcessEvents_loop.induct)
  case (1 n s)
  show ?case
  proof (cases "n < unat (g_nEventQuant s)")
    case True
    then obtain s1 where b: "ProcessEvents_body n s = Some s1"
      and l: "ProcessEvents_loop (Suc n) s1 = Some s'"
      using "1.prems"(1) by (subst (asm) ProcessEvents_loop.simps) (auto split: option.splits)
    note f = ProcessEvents_body_frame[OF b]
    have "\<not> later_today (g_tsNow s) (g_events s n)" using "1.prems"(2) True by auto
    then have "g_tsNextEvent s1 = g_tsNextEvent s" using ProcessEvents_body_next[OF b] by simp
    moreover have "g_tsNextEvent s' = g_tsNextEvent s1"
      using "1.IH"[OF True b l] "1.prems"(2) f by auto
    ultimately show ?thesis by simp
  next
    case False
    then show ?thesis using "1.prems" by (subst (asm) ProcessEvents_loop.simps) simp
  qed
qed

text \<open>
  With no event of the list later today, \<^verbatim>\<open>ProcessEvents\<close> leaves the next event at
  minute 0 of the day it had stored, shifted left by one as a byte, and at day 1 when
  the shifted byte exceeds 127.
\<close>

theorem ProcessEvents_no_later_event:
  "ProcessEvents s = Some s' \<Longrightarrow>
   \<forall>j. j < unat (g_nEventQuant s) \<longrightarrow> \<not> later_today (g_tsNow s) (g_events s j) \<Longrightarrow>
   g_tsNextEvent s' =
     \<lparr>ts_nTime = 0,
      ts_nDay = (if 127 < push_bit 1 (ts_nDay (g_tsNextEvent s)) then 1
                 else push_bit 1 (ts_nDay (g_tsNextEvent s)))\<rparr>"
proof -
  assume p: "ProcessEvents s = Some s'"
    and n: "\<forall>j. j < unat (g_nEventQuant s) \<longrightarrow> \<not> later_today (g_tsNow s) (g_events s j)"
  let ?s0 = "s\<lparr>g_tsNextEvent := (g_tsNextEvent s)\<lparr>ts_nTime := 0xFFFF\<rparr>\<rparr>"
  obtain s1 where l: "ProcessEvents_loop 0 ?s0 = Some s1"
    and e: "s' = (if ts_nTime (g_tsNextEvent s1) = 0xFFFF
           then (let d = push_bit 1 (ts_nDay (g_tsNextEvent s1))
                 in s1\<lparr>g_tsNextEvent :=
                      (g_tsNextEvent s1)\<lparr>ts_nTime := 0, ts_nDay := (if 127 < d then 1 else d)\<rparr>\<rparr>)
           else s1)"
    using p unfolding ProcessEvents_def bind_eq_Some_conv by auto
  have "g_tsNextEvent s1 = g_tsNextEvent ?s0"
    using ProcessEvents_loop_next[OF l] n by simp
  then show ?thesis using e by (simp add: Let_def)
qed

theorem ProcessEvents_no_later_event_witness:
  "\<exists>s'. ProcessEvents state_monday = Some s' \<and>
        g_tsNextEvent s' = \<lparr>ts_nTime = 0, ts_nDay = 4\<rparr>"
proof -
  obtain s' where p: "ProcessEvents state_monday = Some s'"
    by (simp add: ProcessEvents_def ProcessEvents_loop.simps
        ProcessEvents_body_def rd_def state_monday_def state_zero_def zone_zero_def Let_def)
  have u: "unat (g_nEventQuant state_monday) = 1" by (simp add: state_monday_def state_zero_def)
  have n: "\<forall>j. j < unat (g_nEventQuant state_monday)
       \<longrightarrow> \<not> later_today (g_tsNow state_monday) (g_events state_monday j)"
    using u by (simp add: later_today_def state_monday_def state_zero_def)
  have d: "ts_nDay (g_tsNextEvent state_monday) = 2" by (simp add: state_monday_def state_zero_def)
  show ?thesis using ProcessEvents_no_later_event [OF p n] p d by simp
qed

text \<open>
  When the slot just above the list holds a zero day mask, deleting an event writes a
  zero day mask into the EEPROM slot at the new count: the mark at which
  \<^verbatim>\<open>ReadConfig\<close> ends the list.
\<close>

theorem DeleteEvent_writes_end_mark:
  "unat (g_nEventQuant s) < MAX_EVENTS \<Longrightarrow> nEvent < g_nEventQuant s \<Longrightarrow>
   e_nDays (g_events s (unat (g_nEventQuant s))) = 0 \<Longrightarrow>
   \<exists>s'. DeleteEvent nEvent s = Some (Done, s') \<and>
        unat (g_nEventQuant s') = unat (g_nEventQuant s) - 1 \<and>
        EEPROM s' (unat (g_nEventQuant s') * 10 + 200) = 0"
proof -
  assume q: "unat (g_nEventQuant s) < MAX_EVENTS" and lt: "nEvent < g_nEventQuant s"
    and z: "e_nDays (g_events s (unat (g_nEventQuant s))) = 0"
  obtain s1 where l: "DeleteEvent_loop (unat nEvent) s = Some s1"
    and sh: "shifted (unat nEvent) s s1"
    using DeleteEvent_loop_shift[OF q] by blast
  have pos: "g_nEventQuant s \<noteq> 0" using lt by (auto simp: word_less_nat_alt)
  have c: "unat (g_nEventQuant s - 1) = unat (g_nEventQuant s) - 1"
    using pos by (simp add: unat_minus_one)
  have r: "unat nEvent \<le> unat (g_nEventQuant s) - 1 \<and> unat (g_nEventQuant s) - 1 < unat (g_nEventQuant s)"
    using lt by (auto simp: word_less_nat_alt)
  then have "event_stored (EEPROM s1) (unat (g_nEventQuant s) - 1)
      (g_events s (Suc (unat (g_nEventQuant s) - 1)))"
    using sh unfolding shifted_def by blast
  moreover have "Suc (unat (g_nEventQuant s) - 1) = unat (g_nEventQuant s)" using r by simp
  ultimately have "EEPROM s1 ((unat (g_nEventQuant s) - 1) * 10 + 200) = 0"
    using z by (simp add: event_stored_def Let_def)
  moreover have "g_nEventQuant s1 = g_nEventQuant s" using sh by (simp add: shifted_def)
  ultimately show ?thesis using lt l c by (simp add: DeleteEvent_def)
qed

theorem DeleteEvent_writes_end_mark_witness:
  "\<exists>s'. DeleteEvent 0 state_two = Some (Done, s') \<and> EEPROM s' 210 = 0 \<and> unat (g_nEventQuant s') = 1"
proof -
  have q: "unat (g_nEventQuant state_two) < MAX_EVENTS" by (simp add: state_two_def state_zero_def)
  have lt: "0 < g_nEventQuant state_two" by (simp add: state_two_def state_zero_def)
  have z: "e_nDays (g_events state_two (unat (g_nEventQuant state_two))) = 0"
    by (simp add: state_two_def state_zero_def event_zero_def)
  have u: "unat (g_nEventQuant state_two) = 2" by (simp add: state_two_def state_zero_def)
  obtain s' where d: "DeleteEvent 0 state_two = Some (Done, s')"
    and c: "unat (g_nEventQuant s') = unat (g_nEventQuant state_two) - 1"
    and e: "EEPROM s' (unat (g_nEventQuant s') * 10 + 200) = 0"
    using DeleteEvent_writes_end_mark [OF q lt z] by blast
  show ?thesis using d c e u by simp
qed


text \<open>
  Below capacity, \<^verbatim>\<open>AddEvent\<close> with saving puts the new event into the slot at the
  count, saves it there, leaves every other slot alone and counts one more.
\<close>

theorem AddEvent_appends:
  "unat (g_nEventQuant s) < MAX_EVENTS \<Longrightarrow>
   \<exists>s'. AddEvent nZone nDays nTime v True s = Some s' \<and>
        unat (g_nEventQuant s') = unat (g_nEventQuant s) + 1 \<and>
        g_events s' (unat (g_nEventQuant s)) =
          \<lparr>e_nTime = nTime, e_nDays = nDays, e_nZone = nZone, e_nValue = v\<rparr> \<and>
        (\<forall>j. j \<noteq> unat (g_nEventQuant s) \<longrightarrow> g_events s' j = g_events s j) \<and>
        event_stored (EEPROM s') (unat (g_nEventQuant s))
          \<lparr>e_nTime = nTime, e_nDays = nDays, e_nZone = nZone, e_nValue = v\<rparr>"
proof -
  assume q: "unat (g_nEventQuant s) < MAX_EVENTS"
  have u: "unat (g_nEventQuant s + 1) = unat (g_nEventQuant s) + 1"
    using q by (simp add: unat_word_ariths)
  have r: "(g_events s (unat (g_nEventQuant s)))
        \<lparr>e_nDays := nDays, e_nTime := nTime, e_nZone := nZone, e_nValue := v\<rparr> =
      \<lparr>e_nTime = nTime, e_nDays = nDays, e_nZone = nZone, e_nValue = v\<rparr>"
    by simp
  show ?thesis
    using q u by (simp add: AddEvent_def SaveEvent_def rd_def wr_def Let_def event_stored_def r)
qed

theorem AddEvent_appends_witness:
  "\<exists>s'. AddEvent 3 4 480 185 True state_two = Some s' \<and>
        unat (g_nEventQuant s') = 3 \<and>
        g_events s' 2 = \<lparr>e_nTime = 480, e_nDays = 4, e_nZone = 3, e_nValue = 185\<rparr> \<and>
        EEPROM s' 220 = 4"
proof -
  have u: "unat (g_nEventQuant state_two) = 2" by (simp add: state_two_def state_zero_def)
  have q: "unat (g_nEventQuant state_two) < MAX_EVENTS" using u by simp
  show ?thesis using AddEvent_appends [OF q, of 3 4 480 185] u
    by (auto simp: event_stored_def Let_def)
qed

text \<open>
  On a full list every call of \<^verbatim>\<open>DeleteEvent\<close> with an index below the count reaches the
  pass at 99, which reads slot 100: no such call has a defined result.
\<close>

theorem DeleteEvent_full_list_undefined:
  "unat (g_nEventQuant s) = MAX_EVENTS \<Longrightarrow> nEvent < g_nEventQuant s \<Longrightarrow>
   DeleteEvent nEvent s = None"
proof -
  assume q: "unat (g_nEventQuant s) = MAX_EVENTS" and lt: "nEvent < g_nEventQuant s"
  then have "unat nEvent < MAX_EVENTS" by (simp add: word_less_nat_alt)
  then have "DeleteEvent_loop (unat nEvent) s = None"
    using q by (rule DeleteEvent_loop_full[rotated])
  then show ?thesis using lt by (simp add: DeleteEvent_def)
qed

theorem DeleteEvent_full_list_undefined_witness:
  "unat (g_nEventQuant state_full) = MAX_EVENTS \<and> DeleteEvent 57 state_full = None"
proof -
  have q: "unat (g_nEventQuant state_full) = MAX_EVENTS"
    by (simp add: state_full_def state_zero_def)
  have lt: "57 < g_nEventQuant state_full"
    by (simp add: state_full_def state_zero_def)
  show ?thesis using DeleteEvent_full_list_undefined [OF q lt] q by simp
qed

end
